theory Spec2Isabelle
  imports Main "HOL-Library.Monad_Syntax"
begin

section \<open>The date primitive underneath \<open>date-factory.js\<close>\<close>

text \<open>
  \<open>date-factory.js\<close> wraps the built-in JavaScript \<open>Date\<close>.  Its behaviour is fixed by
  the time-value arithmetic of ECMA-262 (section "Date Objects"), which is embedded first.
  A JavaScript number that the code handles is either an integer or \<open>NaN\<close>; it is modelled
  as \<open>int option\<close> with \<open>None\<close> for \<open>NaN\<close>.  A time value is such a number: milliseconds
  since 1970-01-01T00:00:00Z, or \<open>NaN\<close> for the "Invalid Date".
\<close>

type_synonym number = "int option"

definition msPerDay :: int where "msPerDay = 86400000"
definition msPerHour :: int where "msPerHour = 3600000"
definition msPerMinute :: int where "msPerMinute = 60000"
definition msPerSecond :: int where "msPerSecond = 1000"

definition Day :: "int \<Rightarrow> int" where
  "Day t = t div msPerDay"

definition TimeWithinDay :: "int \<Rightarrow> int" where
  "TimeWithinDay t = t mod msPerDay"

definition leap :: "int \<Rightarrow> bool" where
  "leap y = (y mod 4 = 0 \<and> (y mod 100 \<noteq> 0 \<or> y mod 400 = 0))"

definition DaysInYear :: "int \<Rightarrow> int" where
  "DaysInYear y = (if leap y then 366 else 365)"

definition DayFromYear :: "int \<Rightarrow> int" where
  "DayFromYear y =
     365 * (y - 1970) + (y - 1969) div 4 - (y - 1901) div 100 + (y - 1601) div 400"

definition TimeFromYear :: "int \<Rightarrow> int" where
  "TimeFromYear y = msPerDay * DayFromYear y"

text \<open>
  ECMA-262 specifies \<open>YearFromTime t\<close> as the largest \<open>y\<close> with \<open>TimeFromYear y \<le> t\<close>.
  The computation below estimates the year from the mean length of a Gregorian year and
  corrects the estimate by at most one; \<open>YearFromTime_largest\<close> shows it meets the
  specification.
\<close>

definition YearFromDay :: "int \<Rightarrow> int" where
  "YearFromDay d =
     (let y0 = 1970 + (d * 400) div 146097
      in if DayFromYear (y0 + 1) \<le> d then y0 + 1
         else if DayFromYear y0 \<le> d then y0
         else y0 - 1)"

definition YearFromTime :: "int \<Rightarrow> int" where
  "YearFromTime t = YearFromDay (Day t)"

definition InLeapYear :: "int \<Rightarrow> int" where
  "InLeapYear t = (if leap (YearFromTime t) then 1 else 0)"

definition DayWithinYear :: "int \<Rightarrow> int" where
  "DayWithinYear t = Day t - DayFromYear (YearFromTime t)"

definition MonthFromTime :: "int \<Rightarrow> int" where
  "MonthFromTime t =
     (let d = DayWithinYear t; l = InLeapYear t
      in if d < 31 then 0
         else if d < 59 + l then 1
         else if d < 90 + l then 2
         else if d < 120 + l then 3
         else if d < 151 + l then 4
         else if d < 181 + l then 5
         else if d < 212 + l then 6
         else if d < 243 + l then 7
         else if d < 273 + l then 8
         else if d < 304 + l then 9
         else if d < 334 + l then 10
         else 11)"

definition DateFromTime :: "int \<Rightarrow> int" where
  "DateFromTime t =
     (let d = DayWithinYear t; l = InLeapYear t; m = MonthFromTime t
      in if m = 0 then d + 1
         else if m = 1 then d - 30
         else if m = 2 then d - 58 - l
         else if m = 3 then d - 89 - l
         else if m = 4 then d - 119 - l
         else if m = 5 then d - 150 - l
         else if m = 6 then d - 180 - l
         else if m = 7 then d - 211 - l
         else if m = 8 then d - 242 - l
         else if m = 9 then d - 272 - l
         else if m = 10 then d - 303 - l
         else d - 333 - l)"

definition WeekDay :: "int \<Rightarrow> int" where
  "WeekDay t = (Day t + 4) mod 7"

definition HourFromTime :: "int \<Rightarrow> int" where
  "HourFromTime t = (t div msPerHour) mod 24"

definition MinFromTime :: "int \<Rightarrow> int" where
  "MinFromTime t = (t div msPerMinute) mod 60"

definition SecFromTime :: "int \<Rightarrow> int" where
  "SecFromTime t = (t div msPerSecond) mod 60"

definition msFromTime :: "int \<Rightarrow> int" where
  "msFromTime t = t mod msPerSecond"

definition MakeTime :: "int \<Rightarrow> int \<Rightarrow> int \<Rightarrow> int \<Rightarrow> int" where
  "MakeTime hour minute sec ms =
     hour * msPerHour + minute * msPerMinute + sec * msPerSecond + ms"

text \<open>Days from the start of a year to the start of its month \<open>mn\<close> (\<open>0 \<le> mn \<le> 11\<close>).\<close>

definition DaysBeforeMonth :: "int \<Rightarrow> int \<Rightarrow> int" where
  "DaysBeforeMonth y mn =
     (let l = (if leap y then 1 else 0)
      in if mn = 0 then 0
         else if mn = 1 then 31
         else if mn = 2 then 59 + l
         else if mn = 3 then 90 + l
         else if mn = 4 then 120 + l
         else if mn = 5 then 151 + l
         else if mn = 6 then 181 + l
         else if mn = 7 then 212 + l
         else if mn = 8 then 243 + l
         else if mn = 9 then 273 + l
         else if mn = 10 then 304 + l
         else 334 + l)"

text \<open>
  \<open>MakeDay\<close>: the day number of the first of month \<open>month mod 12\<close> in year
  \<open>year + \<lfloor>month / 12\<rfloor>\<close>, plus \<open>date - 1\<close>.  ECMA-262 describes that first day by the
  fields it must have; \<open>MakeDay_first_of_month\<close> shows the formula has them.
\<close>

definition MakeDay :: "int \<Rightarrow> int \<Rightarrow> int \<Rightarrow> int" where
  "MakeDay year month date =
     (let ym = year + month div 12; mn = month mod 12
      in DayFromYear ym + DaysBeforeMonth ym mn + date - 1)"

definition MakeDate :: "int \<Rightarrow> int \<Rightarrow> int" where
  "MakeDate day time = day * msPerDay + time"

definition TimeClip :: "int \<Rightarrow> number" where
  "TimeClip t = (if \<bar>t\<bar> > 8640000000000000 then None else Some t)"

definition MakeFullYear :: "int \<Rightarrow> int" where
  "MakeFullYear y = (if 0 \<le> y \<and> y \<le> 99 then 1900 + y else y)"

text \<open>
  The conversion from local time to UTC, \<open>UTC t = t - LocalTZA(t, false)\<close>.  The offset of
  the host's time zone is not fixed by the program; it is a parameter \<open>tza\<close>, a function of
  the local time (daylight saving makes it vary).
\<close>

definition UTC :: "(int \<Rightarrow> int) \<Rightarrow> int \<Rightarrow> int" where
  "UTC tza t = t - tza t"

subsection \<open>The \<open>Date\<close> constructors and methods the program calls\<close>

text \<open>\<open>Date.UTC(year, month, date, hours, minutes, seconds, ms)\<close>.\<close>

definition Date_UTC ::
  "number \<Rightarrow> number \<Rightarrow> number \<Rightarrow> number \<Rightarrow> number \<Rightarrow> number \<Rightarrow> number \<Rightarrow> number" where
  "Date_UTC year month date hours minutes seconds ms =
     do { y \<leftarrow> year; m \<leftarrow> month; dt \<leftarrow> date;
          h \<leftarrow> hours; mi \<leftarrow> minutes; s \<leftarrow> seconds; milli \<leftarrow> ms;
          TimeClip (MakeDate (MakeDay (MakeFullYear y) m dt) (MakeTime h mi s milli)) }"

text \<open>\<open>new Date(value)\<close> for a number: the time value is the clipped number.\<close>

definition Date_of_number :: "number \<Rightarrow> number" where
  "Date_of_number v = Option.bind v TimeClip"

text \<open>
  \<open>new Date(year, month, date, hours, minutes, seconds, ms)\<close>: the fields are read as
  \<^emph>\<open>local\<close> time and converted to UTC.
\<close>

definition Date_of_fields ::
  "(int \<Rightarrow> int) \<Rightarrow> number \<Rightarrow> number \<Rightarrow> number \<Rightarrow> number \<Rightarrow> number \<Rightarrow> number \<Rightarrow> number
     \<Rightarrow> number" where
  "Date_of_fields tza year month date hours minutes seconds ms =
     do { y \<leftarrow> year; m \<leftarrow> month; dt \<leftarrow> date;
          h \<leftarrow> hours; mi \<leftarrow> minutes; s \<leftarrow> seconds; milli \<leftarrow> ms;
          TimeClip (UTC tza (MakeDate (MakeDay (MakeFullYear y) m dt) (MakeTime h mi s milli))) }"

definition getUTCFullYear :: "number \<Rightarrow> number" where
  "getUTCFullYear tv = map_option YearFromTime tv"

definition getUTCMonth :: "number \<Rightarrow> number" where
  "getUTCMonth tv = map_option MonthFromTime tv"

definition getUTCDate :: "number \<Rightarrow> number" where
  "getUTCDate tv = map_option DateFromTime tv"

definition getUTCDay :: "number \<Rightarrow> number" where
  "getUTCDay tv = map_option WeekDay tv"

definition getUTCHours :: "number \<Rightarrow> number" where
  "getUTCHours tv = map_option HourFromTime tv"

definition getUTCMinutes :: "number \<Rightarrow> number" where
  "getUTCMinutes tv = map_option MinFromTime tv"

definition getUTCSeconds :: "number \<Rightarrow> number" where
  "getUTCSeconds tv = map_option SecFromTime tv"

definition getUTCMilliseconds :: "number \<Rightarrow> number" where
  "getUTCMilliseconds tv = map_option msFromTime tv"

text \<open>
  The setters return the new time value of the object.  \<open>setUTCFullYear\<close> starts from
  \<open>+0\<close> when the object holds \<open>NaN\<close>; the other two leave \<open>NaN\<close> alone.
\<close>

definition setUTCFullYear :: "number \<Rightarrow> number \<Rightarrow> number" where
  "setUTCFullYear tv year =
     (let t = (case tv of None \<Rightarrow> 0 | Some t \<Rightarrow> t)
      in do { y \<leftarrow> year;
              TimeClip (MakeDate (MakeDay y (MonthFromTime t) (DateFromTime t))
                                 (TimeWithinDay t)) })"

definition setUTCMonth :: "number \<Rightarrow> number \<Rightarrow> number" where
  "setUTCMonth tv month =
     do { t \<leftarrow> tv; m \<leftarrow> month;
          TimeClip (MakeDate (MakeDay (YearFromTime t) m (DateFromTime t))
                             (TimeWithinDay t)) }"

definition setUTCDate :: "number \<Rightarrow> number \<Rightarrow> number" where
  "setUTCDate tv date =
     do { t \<leftarrow> tv; dt \<leftarrow> date;
          TimeClip (MakeDate (MakeDay (YearFromTime t) (MonthFromTime t) dt)
                             (TimeWithinDay t)) }"

subsection \<open>Strings of numbers\<close>

text \<open>\<open>String(value)\<close> for an integer or \<open>NaN\<close>, \<open>padStart\<close>, and \<open>Number(string)\<close>.\<close>

definition digit_char :: "nat \<Rightarrow> char" where
  "digit_char n = char_of (48 + n)"

fun digits :: "nat \<Rightarrow> string" where
  "digits n = (if n < 10 then [digit_char n] else digits (n div 10) @ [digit_char (n mod 10)])"

declare digits.simps [simp del]

definition String_of_number :: "number \<Rightarrow> string" where
  "String_of_number v =
     (case v of None \<Rightarrow> ''NaN''
      | Some i \<Rightarrow> if i < 0 then CHR ''-'' # digits (nat (- i)) else digits (nat i))"

definition padStart :: "string \<Rightarrow> nat \<Rightarrow> char \<Rightarrow> string" where
  "padStart str maxLength c = replicate (maxLength - length str) c @ str"

definition is_digit :: "char \<Rightarrow> bool" where
  "is_digit c = (c \<in> set ''0123456789'')"

definition digit_value :: "char \<Rightarrow> int" where
  "digit_value c = int (of_char c) - 48"

definition numeral_value :: "string \<Rightarrow> int" where
  "numeral_value str = foldl (\<lambda>acc c. acc * 10 + digit_value c) 0 str"

text \<open>
  \<open>Number(string)\<close> on the strings that \<open>getComparableDate\<close> can build: decimal digits
  with an optional minus sign; the empty string is \<open>0\<close>; a string with any other
  character (such as \<open>NaN\<close>) is \<open>NaN\<close>.
\<close>

definition Number_of_string :: "string \<Rightarrow> number" where
  "Number_of_string str =
     (case str of
        [] \<Rightarrow> Some 0
      | c # cs \<Rightarrow>
          if c = CHR ''-'' then
            (if cs \<noteq> [] \<and> list_all is_digit cs then Some (- numeral_value cs) else None)
          else if list_all is_digit str then Some (numeral_value str)
          else None)"

section \<open>\<open>date-factory.js\<close>\<close>

text \<open>
  \<open>Date\<close> objects are mutable and shared by reference, so they live in a store: a list of
  time values, an object being its index.  \<open>new Date\<close> appends to the store.  Reading an
  index that was never allocated cannot happen in JavaScript; the model reads \<open>NaN\<close> there.
\<close>

type_synonym heap = "number list"

definition deref :: "heap \<Rightarrow> nat \<Rightarrow> number" where
  "deref h a = (if a < length h then h ! a else None)"

definition alloc :: "heap \<Rightarrow> number \<Rightarrow> nat \<times> heap" where
  "alloc h v = (length h, h @ [v])"

text \<open>
  The host: the clock that \<open>new Date()\<close> reads, and the offset of the local time zone.
\<close>

record host =
  now :: int
  LocalTZA :: "int \<Rightarrow> int"

text \<open>
  \<open>InputDate\<close>, the argument of the factory: a number or a string, given by the time value
  that \<open>new Date(dateArg)\<close> has for it (a number clipped to the range of time values, the
  parse of a string, \<open>NaN\<close> when the string does not parse), or a \<open>Date\<close> object.
\<close>

datatype InputDate = Parsed number | DateObject nat

definition new_Date :: "heap \<Rightarrow> InputDate \<Rightarrow> number" where
  "new_Date h dateArg =
     (case dateArg of Parsed v \<Rightarrow> Date_of_number v | DateObject a \<Rightarrow> deref h a)"

text \<open>
  The options object; a key may be missing.  \<open>{ ...DEFAULT_OPTIONS, ...optionsArg }\<close>
  takes each key from \<open>optionsArg\<close> when it is there.
\<close>

record XBDateFactoryOptions =
  normalize :: "bool option"

definition DEFAULT_OPTIONS :: XBDateFactoryOptions where
  "DEFAULT_OPTIONS = \<lparr> normalize = Some True \<rparr>"

definition spread :: "XBDateFactoryOptions \<Rightarrow> XBDateFactoryOptions \<Rightarrow> XBDateFactoryOptions" where
  "spread a b =
     \<lparr> normalize = (case normalize b of None \<Rightarrow> normalize a | Some v \<Rightarrow> Some v) \<rparr>"

text \<open>
  A Date Value is the object literal the factory returns; all its methods close over the
  one \<open>Date\<close> object \<open>utcDate\<close>, so the value is that reference.  \<open>get\<close> is the method
  \<open>get()\<close>.
\<close>

datatype XBDate = XBDate (get: nat)

definition normalizeToUTC :: "host \<Rightarrow> InputDate option \<Rightarrow> bool \<Rightarrow> heap \<Rightarrow> number" where
  "normalizeToUTC env dateArg norm h =
     (let date = (case dateArg of None \<Rightarrow> Some (now env) | Some arg \<Rightarrow> new_Date h arg)
      in Date_of_number
           (Date_UTC (getUTCFullYear date) (getUTCMonth date) (getUTCDate date)
              (if norm then Some 12 else getUTCHours date)
              (if norm then Some 0 else getUTCMinutes date)
              (if norm then Some 0 else getUTCSeconds date)
              (if norm then Some 0 else getUTCMilliseconds date)))"

definition XBDateFactory ::
  "host \<Rightarrow> InputDate option \<Rightarrow> XBDateFactoryOptions option \<Rightarrow> heap \<Rightarrow> XBDate \<times> heap" where
  "XBDateFactory env dateArg optionsArg h =
     (let options = spread DEFAULT_OPTIONS
                      (case optionsArg of None \<Rightarrow> DEFAULT_OPTIONS | Some opts \<Rightarrow> opts);
          (utcDate, h') = alloc h (normalizeToUTC env dateArg (normalize options = Some True) h)
      in (XBDate utcDate, h'))"

definition getYear :: "XBDate \<Rightarrow> heap \<Rightarrow> number" where
  "getYear x h = getUTCFullYear (deref h (get x))"

definition getMonth :: "XBDate \<Rightarrow> heap \<Rightarrow> number" where
  "getMonth x h = getUTCMonth (deref h (get x))"

definition getDate :: "XBDate \<Rightarrow> heap \<Rightarrow> number" where
  "getDate x h = getUTCDate (deref h (get x))"

definition getTime :: "XBDate \<Rightarrow> heap \<Rightarrow> number" where
  "getTime x h = deref h (get x)"

definition getWeekday :: "XBDate \<Rightarrow> heap \<Rightarrow> number" where
  "getWeekday x h = getUTCDay (deref h (get x))"

definition getHours :: "XBDate \<Rightarrow> heap \<Rightarrow> number" where
  "getHours x h = getUTCHours (deref h (get x))"

definition getMinutes :: "XBDate \<Rightarrow> heap \<Rightarrow> number" where
  "getMinutes x h = getUTCMinutes (deref h (get x))"

definition getSeconds :: "XBDate \<Rightarrow> heap \<Rightarrow> number" where
  "getSeconds x h = getUTCSeconds (deref h (get x))"

subsection \<open>Arithmetic: the helper \<open>add\<close> and the methods \<open>add\<close>, \<open>subtract\<close>\<close>

datatype DateUnit = UnitYear | UnitMonth | UnitDay

datatype error = TypeError

text \<open>
  What the fold of \<open>add\<close>/\<open>subtract\<close> carries and returns: the raw \<open>Date\<close> object it starts
  from, or a Date Value.
\<close>

datatype jsvalue = DateRef nat | XBDateRef XBDate

text \<open>
  The helper \<open>add(date, unit, value)\<close> calls \<open>getUTCFullYear\<close> and the other \<open>Date\<close> getters
  on \<open>date\<close>.  A Date Value has no such methods (its own are \<open>getYear\<close>, \<open>getMonth\<close>, ...), so
  the call on one is a call of \<open>undefined\<close> and throws a \<open>TypeError\<close>.
\<close>

definition add ::
  "host \<Rightarrow> jsvalue \<Rightarrow> DateUnit \<Rightarrow> int \<Rightarrow> heap \<Rightarrow> error + (XBDate \<times> heap)" where
  "add env date unit val h =
     (case date of
        XBDateRef _ \<Rightarrow> Inl TypeError
      | DateRef a \<Rightarrow>
          let increment_year = (if unit = UnitYear then val else 0);
              increment_month = (if unit = UnitMonth then val else 0);
              increment_day = (if unit = UnitDay then val else 0);
              d = deref h a;
              (newDate, h1) =
                 alloc h
                   (Date_of_fields (LocalTZA env)
                      (map_option (\<lambda>y. y + increment_year) (getUTCFullYear d))
                      (map_option (\<lambda>m. m + increment_month) (getUTCMonth d))
                      (map_option (\<lambda>dt. dt + increment_day) (getUTCDate d))
                      (getUTCHours d) (getUTCMinutes d) (getUTCSeconds d)
                      (getUTCMilliseconds d))
          in Inr (XBDateFactory env (Some (DateObject newDate)) None h1))"

text \<open>\<open>Array.prototype.reduce\<close> with an initial value, for a callback that may throw.\<close>

fun reduce ::
  "('a \<Rightarrow> 'k \<Rightarrow> heap \<Rightarrow> error + ('a \<times> heap)) \<Rightarrow> 'k list \<Rightarrow> 'a \<Rightarrow> heap \<Rightarrow> error + ('a \<times> heap)"
  where
  "reduce f [] acc h = Inr (acc, h)"
| "reduce f (k # ks) acc h =
     (case f acc k h of Inl e \<Rightarrow> Inl e | Inr (acc', h') \<Rightarrow> reduce f ks acc' h')"

text \<open>
  \<open>summands\<close> is the object's own keys in iteration order, each with its amount; \<open>None\<close> is
  an absent argument, for which \<open>summands || []\<close> has no keys.
\<close>

definition add_method ::
  "host \<Rightarrow> XBDate \<Rightarrow> (DateUnit \<times> int) list option \<Rightarrow> heap \<Rightarrow> error + (jsvalue \<times> heap)" where
  "add_method env this summands h =
     reduce
       (\<lambda>newDate (key, amount) h.
           case add env newDate key amount h of
             Inl e \<Rightarrow> Inl e
           | Inr (r, h') \<Rightarrow> Inr (XBDateRef r, h'))
       (case summands of None \<Rightarrow> [] | Some kvs \<Rightarrow> kvs)
       (DateRef (get this)) h"

definition subtract_method ::
  "host \<Rightarrow> XBDate \<Rightarrow> (DateUnit \<times> int) list option \<Rightarrow> heap \<Rightarrow> error + (jsvalue \<times> heap)" where
  "subtract_method env this subtrahends h =
     reduce
       (\<lambda>newDate (key, amount) h.
           case add env newDate key (-1 * amount) h of
             Inl e \<Rightarrow> Inl e
           | Inr (r, h') \<Rightarrow> Inr (XBDateRef r, h'))
       (case subtrahends of None \<Rightarrow> [] | Some kvs \<Rightarrow> kvs)
       (DateRef (get this)) h"

subsection \<open>The method \<open>set\<close>\<close>

text \<open>The argument of \<open>set\<close>: each of the three keys may be missing.\<close>

record DateValues =
  year :: "int option"
  month :: "int option"
  day :: "int option"

definition set_method :: "XBDate \<Rightarrow> DateValues option \<Rightarrow> heap \<Rightarrow> XBDate \<times> heap" where
  "set_method this vals h =
     (let utcDate = deref h (get this);
          v = (case vals of None \<Rightarrow> \<lparr> year = None, month = None, day = None \<rparr> | Some v \<Rightarrow> v);
          newValue_year = (case year v of None \<Rightarrow> getUTCFullYear utcDate | Some y \<Rightarrow> Some y);
          newValue_month = (case month v of None \<Rightarrow> getUTCMonth utcDate | Some m \<Rightarrow> Some m);
          newValue_day = (case day v of None \<Rightarrow> getUTCDate utcDate | Some d \<Rightarrow> Some d);
          t1 = setUTCFullYear utcDate newValue_year;
          t2 = setUTCMonth t1 newValue_month;
          t3 = setUTCDate t2 newValue_day
      in (this, h[get this := t3]))"

subsection \<open>The method \<open>matches\<close>\<close>

text \<open>
  Modelled from the spec: \<open>isEmpty\<close> of \<open>./is-empty\<close>, which is not among the sources.  The
  spec gives its contract: true iff the sequence is null, undefined or has zero length.  A
  rest parameter is always an array.
\<close>

definition isEmpty :: "'a list \<Rightarrow> bool" where
  "isEmpty xs = (length xs = 0)"

text \<open>
  An evaluator is a function of a Date Value; a caller's predicate may also change the
  store.  \<open>getConstraintEvaluator\<close> of \<open>./date-constraints\<close> is not among the sources and
  is a parameter of \<open>matches\<close>.
\<close>

type_synonym evaluator = "XBDate \<Rightarrow> heap \<Rightarrow> bool \<times> heap"

text \<open>\<open>Array.prototype.some\<close>: stops at the first callback that returns true.\<close>

fun some :: "evaluator list \<Rightarrow> XBDate \<Rightarrow> heap \<Rightarrow> bool \<times> heap" where
  "some [] date h = (False, h)"
| "some (evaluator # rest) date h =
     (let (b, h') = evaluator date h in if b then (True, h') else some rest date h')"

definition matches ::
  "host \<Rightarrow> ('c \<Rightarrow> evaluator) \<Rightarrow> XBDate \<Rightarrow> 'c list \<Rightarrow> heap \<Rightarrow> bool \<times> heap" where
  "matches env getConstraintEvaluator this constraints h =
     (if isEmpty constraints then (False, h)
      else
        let constraintEvaluators = map getConstraintEvaluator constraints;
            (date, h') = XBDateFactory env (Some (DateObject (get this))) None h
        in some constraintEvaluators date h')"

subsection \<open>The method \<open>is\<close>\<close>

definition getSafeOperator :: "string \<Rightarrow> string" where
  "getSafeOperator operator =
     (if operator \<notin> set [''>='', ''>'', ''='', ''<'', ''<=''] \<or> operator = ''=''
      then ''==='' else operator)"

definition padded :: "number \<Rightarrow> string" where
  "padded v = padStart (String_of_number v) 2 (CHR ''0'')"

definition COMPARE_TO :: "DateUnit \<Rightarrow> nat" where
  "COMPARE_TO precision =
     (case precision of UnitYear \<Rightarrow> 1 | UnitMonth \<Rightarrow> 2 | UnitDay \<Rightarrow> 3)"

definition getComparableDate :: "number \<Rightarrow> DateUnit \<Rightarrow> string" where
  "getComparableDate date precision =
     concat (take (COMPARE_TO precision)
        [String_of_number (getUTCFullYear date),
         padded (getUTCMonth date),
         padded (getUTCDate date)])"

text \<open>
  \<open>compare\<close> builds the source text \<open>(a op b)\<close> and runs it.  The text of a number is its
  decimal numeral or \<open>NaN\<close>, which reads back as the same number, so the result is the
  JavaScript comparison of the two numbers; every comparison with \<open>NaN\<close> is false.
\<close>

definition compare :: "string \<Rightarrow> number \<Rightarrow> number \<Rightarrow> bool" where
  "compare operator a b =
     (case (a, b) of
        (Some x, Some y) \<Rightarrow>
          (let op = getSafeOperator operator
           in if op = ''==='' then x = y
              else if op = ''>='' then x \<ge> y
              else if op = ''>'' then x > y
              else if op = ''<'' then x < y
              else x \<le> y)
      | _ \<Rightarrow> False)"

text \<open>\<open>precision\<close> is \<open>None\<close> when the argument is left out; the default is \<open>'day'\<close>.\<close>

definition is_method :: "XBDate \<Rightarrow> string \<Rightarrow> XBDate \<Rightarrow> DateUnit option \<Rightarrow> heap \<Rightarrow> bool" where
  "is_method this operator otherDate precisionArg h =
     (let precision = (case precisionArg of None \<Rightarrow> UnitDay | Some p \<Rightarrow> p)
      in compare operator
           (Number_of_string (getComparableDate (deref h (get this)) precision))
           (Number_of_string (getComparableDate (deref h (get otherDate)) precision)))"

section \<open>Notions used to state the properties\<close>

text \<open>JavaScript's \<open>===\<close> on two numbers: \<open>NaN\<close> is equal to nothing, itself included.\<close>

definition strict_equal :: "number \<Rightarrow> number \<Rightarrow> bool" where
  "strict_equal a b = (case (a, b) of (Some x, Some y) \<Rightarrow> x = y | _ \<Rightarrow> False)"

text \<open>The store after every evaluator of a list has run on \<open>date\<close>, in order.\<close>

fun run_all :: "evaluator list \<Rightarrow> XBDate \<Rightarrow> heap \<Rightarrow> heap" where
  "run_all [] date h = h"
| "run_all (evaluator # rest) date h = run_all rest date (snd (evaluator date h))"

text \<open>A time value that is a date: not \<open>NaN\<close>, and within the range of time values.\<close>

definition valid_time :: "number \<Rightarrow> bool" where
  "valid_time tv = (case tv of None \<Rightarrow> False | Some t \<Rightarrow> \<bar>t\<bar> \<le> 8640000000000000)"

text \<open>
  The instant the factory starts from (the local \<open>date\<close> of \<open>normalizeToUTC\<close>): the clock
  when there is no argument, \<open>new Date(dateArg)\<close> otherwise.
\<close>

definition input_time :: "host \<Rightarrow> heap \<Rightarrow> InputDate option \<Rightarrow> number" where
  "input_time env h dateArg =
     (case dateArg of None \<Rightarrow> Some (now env) | Some arg \<Rightarrow> new_Date h arg)"

text \<open>
  The call chain \<open>d.add({day: n}).subtract({day: n})\<close>.  When \<open>add\<close> returns the raw \<open>Date\<close>
  there is no method \<open>subtract\<close> to call on it.
\<close>

definition add_then_subtract :: "host \<Rightarrow> XBDate \<Rightarrow> int \<Rightarrow> heap \<Rightarrow> error + (jsvalue \<times> heap)" where
  "add_then_subtract env d n h =
     (case add_method env d (Some [(UnitDay, n)]) h of
        Inl e \<Rightarrow> Inl e
      | Inr (DateRef a, h1) \<Rightarrow> Inl TypeError
      | Inr (XBDateRef d1, h1) \<Rightarrow> subtract_method env d1 (Some [(UnitDay, n)]) h1)"

text \<open>
  The number that \<open>is\<close> compares, for a valid date: for a year \<open>\<ge> 0\<close> the fields in
  decimal positions; for a year \<open>< 0\<close> the negation of what the absolute year gives.
\<close>

definition field_number :: "DateUnit \<Rightarrow> int \<Rightarrow> int \<Rightarrow> int \<Rightarrow> int" where
  "field_number p y m d =
     (case p of UnitYear \<Rightarrow> y | UnitMonth \<Rightarrow> y * 100 + m | UnitDay \<Rightarrow> y * 10000 + m * 100 + d)"

text \<open>
  Calendar order at a precision: the number of the year, of the month, and of the day that
  an instant falls in.
\<close>

definition calendar_index :: "DateUnit \<Rightarrow> int \<Rightarrow> int" where
  "calendar_index p t =
     (case p of
        UnitYear \<Rightarrow> YearFromTime t
      | UnitMonth \<Rightarrow> YearFromTime t * 12 + MonthFromTime t
      | UnitDay \<Rightarrow> Day t)"


text \<open>A host whose local time is a fixed number of milliseconds ahead of UTC.\<close>

definition offset_host :: "int \<Rightarrow> host" where
  "offset_host off = \<lparr> now = 0, LocalTZA = (\<lambda>t. off) \<rparr>"

text \<open>A host whose local time is UTC, for examples.\<close>

definition utc_host :: host where
  "utc_host = \<lparr> now = 0, LocalTZA = (\<lambda>t. 0) \<rparr>"

section \<open>The calendar arithmetic\<close>

lemma div_bounds:
  fixes a n :: int
  assumes "0 < n"
  shows "n * (a div n) \<le> a" and "a < n * (a div n) + n"
proof -
  have e: "n * (a div n) + a mod n = a" by simp
  have "0 \<le> a mod n" "a mod n < n" using assms by simp_all
  with e show "n * (a div n) \<le> a" and "a < n * (a div n) + n" by linarith+
qed

lemma est_lo: "DayFromYear (1970 + (d * 400) div 146097 - 1) \<le> d"
proof -
  define e where "e = (d * 400) div 146097"
  define x where "x = e - 1"
  have z: "(0::int) < 146097" "(0::int) < 4" "(0::int) < 100" "(0::int) < 400" by simp_all
  note b1 = div_bounds [OF z(1), of "d * 400", folded e_def]
  note b4 = div_bounds [OF z(2), of "x + 1"]
  note b100 = div_bounds [OF z(3), of "x + 69"]
  note b400 = div_bounds [OF z(4), of "x + 369"]
  have "DayFromYear (1970 + e - 1) = 365 * x + (x + 1) div 4 - (x + 69) div 100 + (x + 369) div 400"
    unfolding DayFromYear_def x_def by (simp add: algebra_simps)
  moreover have "365 * x + (x + 1) div 4 - (x + 69) div 100 + (x + 369) div 400 \<le> d"
  proof -
    define A where "A = (x + 1) div 4"
    define B where "B = (x + 69) div 100"
    define C where "C = (x + 369) div 400"
    have "365 * x + A - B + C \<le> d"
      using b1 b4 [folded A_def] b100 [folded B_def] b400 [folded C_def] x_def
      by linarith
    then show ?thesis unfolding A_def B_def C_def .
  qed
  ultimately show ?thesis unfolding e_def by simp
qed

lemma est_hi: "d < DayFromYear (1970 + (d * 400) div 146097 + 2)"
proof -
  define e where "e = (d * 400) div 146097"
  define x where "x = e + 2"
  have z: "(0::int) < 146097" "(0::int) < 4" "(0::int) < 100" "(0::int) < 400" by simp_all
  note b1 = div_bounds [OF z(1), of "d * 400", folded e_def]
  note b4 = div_bounds [OF z(2), of "x + 1"]
  note b100 = div_bounds [OF z(3), of "x + 69"]
  note b400 = div_bounds [OF z(4), of "x + 369"]
  have "DayFromYear (1970 + e + 2) = 365 * x + (x + 1) div 4 - (x + 69) div 100 + (x + 369) div 400"
    unfolding DayFromYear_def x_def by (simp add: algebra_simps)
  moreover have "d < 365 * x + (x + 1) div 4 - (x + 69) div 100 + (x + 369) div 400"
  proof -
    define A where "A = (x + 1) div 4"
    define B where "B = (x + 69) div 100"
    define C where "C = (x + 369) div 400"
    have "d < 365 * x + A - B + C"
      using b1 b4 [folded A_def] b100 [folded B_def] b400 [folded C_def] x_def
      by linarith
    then show ?thesis unfolding A_def B_def C_def .
  qed
  ultimately show ?thesis unfolding e_def by simp
qed

lemma DayFromYear_strict_mono:
  assumes "y < y'" shows "DayFromYear y < DayFromYear y'"
proof -
  have a: "(y - 1969) div 4 \<le> (y' - 1969) div 4" using assms by (intro zdiv_mono1) simp_all
  have c: "(y - 1601) div 400 \<le> (y' - 1601) div 400" using assms by (intro zdiv_mono1) simp_all
  have z: "(0::int) < 100" by simp
  note b = div_bounds [OF z, of "y - 1901"] div_bounds [OF z, of "y' - 1901"]
  define A where "A = (y - 1969) div 4"
  define A' where "A' = (y' - 1969) div 4"
  define B where "B = (y - 1901) div 100"
  define B' where "B' = (y' - 1901) div 100"
  define C where "C = (y - 1601) div 400"
  define C' where "C' = (y' - 1601) div 400"
  have "365 * y + A - B + C < 365 * y' + A' - B' + C'"
    using a [folded A_def A'_def] c [folded C_def C'_def] b [folded B_def B'_def] assms
    by linarith
  then show ?thesis unfolding DayFromYear_def A_def A'_def B_def B'_def C_def C'_def
    by (simp add: algebra_simps)
qed

lemma DayFromYear_mono: "y \<le> y' \<Longrightarrow> DayFromYear y \<le> DayFromYear y'"
  using DayFromYear_strict_mono [of y y'] by (cases "y = y'") simp_all

lemma YearFromDay_bounds:
  "DayFromYear (YearFromDay d) \<le> d" "d < DayFromYear (YearFromDay d + 1)"
  using est_lo [of d] est_hi [of d]
  unfolding YearFromDay_def Let_def by (simp_all add: algebra_simps)

lemma YearFromDay_unique:
  assumes "DayFromYear y \<le> d" "d < DayFromYear (y + 1)"
  shows "YearFromDay d = y"
proof (rule ccontr)
  assume n: "YearFromDay d \<noteq> y"
  note B = YearFromDay_bounds [of d]
  show False
  proof (cases "YearFromDay d < y")
    case True
    then have "DayFromYear (YearFromDay d + 1) \<le> DayFromYear y" by (intro DayFromYear_mono) simp
    with B assms show False by linarith
  next
    case False
    with n have "y + 1 \<le> YearFromDay d" by simp
    then have "DayFromYear (y + 1) \<le> DayFromYear (YearFromDay d)" by (rule DayFromYear_mono)
    with B assms show False by linarith
  qed
qed

lemma mod_shift: "(y - k * n) mod n = (y :: int) mod n"
  by (metis diff_conv_add_uminus mult.commute mult_minus_left mod_mult_self2)

lemma div_succ:
  fixes a n :: int assumes "1 < n"
  shows "(a + 1) div n = a div n + (if (a + 1) mod n = 0 then 1 else 0)"
proof -
  have e: "n * (a div n) + a mod n = a" by simp
  have r: "0 \<le> a mod n" "a mod n < n" using assms by simp_all
  show ?thesis
  proof (cases "a mod n + 1 = n")
    case True
    then have "a + 1 = n * (a div n) + n" using e by linarith
    then have "a + 1 = n * (a div n + 1)" by (simp add: algebra_simps)
    then have "(a + 1) div n = a div n + 1" "(a + 1) mod n = 0" using assms
      by (metis nonzero_mult_div_cancel_left not_one_less_zero, metis mod_mult_self1_is_0)
    then show ?thesis by simp
  next
    case False
    then have lt: "a mod n + 1 < n" using r by linarith
    have "a + 1 = n * (a div n) + (a mod n + 1)" using e by linarith
    then have d: "(a + 1) div n = a div n" and m: "(a + 1) mod n = a mod n + 1"
      using lt r
      by (metis add_nonneg_nonneg div_pos_pos_trivial div_mult_self2 add.commute add_cancel_left_left assms not_one_less_zero zero_less_one_class.zero_le_one mult.commute,
          metis add_nonneg_nonneg mod_pos_pos_trivial mod_mult_self2 add.commute zero_less_one_class.zero_le_one mult.commute)
    from m r have "(a + 1) mod n \<noteq> 0" by linarith
    with d show ?thesis by simp
  qed
qed

lemma DayFromYear_step: "DayFromYear (y + 1) = DayFromYear y + DaysInYear y"
proof -
  have s4: "(y - 1968) div 4 = (y - 1969) div 4 + (if y mod 4 = 0 then 1 else 0)"
    using div_succ [of 4 "y - 1969"] mod_shift [of y 492 4] by simp
  have s100: "(y - 1900) div 100 = (y - 1901) div 100 + (if y mod 100 = 0 then 1 else 0)"
    using div_succ [of 100 "y - 1901"] mod_shift [of y 19 100] by simp
  have s400: "(y - 1600) div 400 = (y - 1601) div 400 + (if y mod 400 = 0 then 1 else 0)"
    using div_succ [of 400 "y - 1601"] mod_shift [of y 4 400] by simp
  have d4: "y mod 100 = 0 \<Longrightarrow> y mod 4 = 0"
    using mod_mod_cancel [of 4 100 y] by simp
  have d100: "y mod 400 = 0 \<Longrightarrow> y mod 100 = 0"
    using mod_mod_cancel [of 100 400 y] by simp
  define A where "A = (y - 1969) div 4"
  define B where "B = (y - 1901) div 100"
  define C where "C = (y - 1601) div 400"
  have e: "DayFromYear (y + 1) =
      365 * (y - 1969) + (y - 1968) div 4 - (y - 1900) div 100 + (y - 1600) div 400"
    by (simp add: DayFromYear_def)
  have f: "DayFromYear y = 365 * (y - 1970) + A - B + C"
    by (simp add: DayFromYear_def A_def B_def C_def)
  show ?thesis
    unfolding e f s4 s100 s400 DaysInYear_def leap_def A_def [symmetric] B_def [symmetric]
      C_def [symmetric]
    using d4 d100 by (cases "y mod 4 = 0"; cases "y mod 100 = 0"; cases "y mod 400 = 0") simp_all
qed

lemma YearFromTime_bounds:
  "DayFromYear (YearFromTime t) \<le> Day t" "Day t < DayFromYear (YearFromTime t + 1)"
  unfolding YearFromTime_def by (rule YearFromDay_bounds)+

lemma DayWithinYear_bounds:
  "0 \<le> DayWithinYear t" "DayWithinYear t < 365 + InLeapYear t"
  using YearFromTime_bounds [of t] DayFromYear_step [of "YearFromTime t"]
  unfolding DayWithinYear_def InLeapYear_def DaysInYear_def by (simp_all split: if_splits)

lemma MonthFromTime_range: "0 \<le> MonthFromTime t \<and> MonthFromTime t \<le> 11"
  by (simp add: MonthFromTime_def Let_def)

lemma MonthFromTime_cases:
  "MonthFromTime t \<in> {0, 1, 2, 3, 4, 5, 6, 7, 8, 9, 10, 11}"
  by (simp add: MonthFromTime_def Let_def)

lemma within_year_roundtrip:
  "DaysBeforeMonth (YearFromTime t) (MonthFromTime t) + DateFromTime t - 1 = DayWithinYear t"
  using MonthFromTime_cases [of t]
  by (auto simp: DateFromTime_def DaysBeforeMonth_def InLeapYear_def Let_def)

lemma MakeDay_roundtrip:
  "MakeDay (YearFromTime t) (MonthFromTime t) (DateFromTime t) = Day t"
proof -
  have "MonthFromTime t div 12 = 0" "MonthFromTime t mod 12 = MonthFromTime t"
    using MonthFromTime_range [of t] by simp_all
  then show ?thesis
    using within_year_roundtrip [of t] by (simp add: MakeDay_def DayWithinYear_def Let_def)
qed

lemma DateFromTime_range: "1 \<le> DateFromTime t \<and> DateFromTime t \<le> 31"
  using DayWithinYear_bounds [of t]
  unfolding DateFromTime_def MonthFromTime_def InLeapYear_def Let_def
  by (auto split: if_splits)

subsection \<open>Time within the day\<close>

lemma Day_shift: "Day (d * msPerDay + x) = d + Day x"
  by (simp add: Day_def msPerDay_def)

lemma TimeWithinDay_shift: "TimeWithinDay (d * msPerDay + x) = TimeWithinDay x"
  by (simp add: TimeWithinDay_def msPerDay_def)

lemma TimeWithinDay_range: "0 \<le> TimeWithinDay t" "TimeWithinDay t < msPerDay"
  by (simp_all add: TimeWithinDay_def msPerDay_def)

lemma Day_TimeWithinDay: "Day t * msPerDay + TimeWithinDay t = t"
  by (simp add: Day_def TimeWithinDay_def)

lemma Day_of_small: "0 \<le> x \<Longrightarrow> x < msPerDay \<Longrightarrow> Day x = 0"
  by (simp add: Day_def)

lemma TimeWithinDay_of_small: "0 \<le> x \<Longrightarrow> x < msPerDay \<Longrightarrow> TimeWithinDay x = x"
  by (simp add: TimeWithinDay_def)

lemma mod_drop: "(k::int) = n * j \<Longrightarrow> (k + q) mod n = q mod n"
  by (simp add: add.commute)

lemma HourFromTime_shift: "HourFromTime (d * msPerDay + x) = HourFromTime x"
proof -
  have "d * 86400000 + x = x + 3600000 * (24 * d)" by simp
  then have "(d * 86400000 + x) div 3600000 = 24 * d + x div 3600000"
    by (simp only: div_mult_self2 [of 3600000 x "24 * d"])
  then show ?thesis by (simp add: HourFromTime_def msPerDay_def msPerHour_def)
qed

lemma MinFromTime_shift: "MinFromTime (d * msPerDay + x) = MinFromTime x"
proof -
  have "d * 86400000 + x = x + 60000 * (1440 * d)" by simp
  then have "(d * 86400000 + x) div 60000 = 60 * (24 * d) + x div 60000"
    by (simp only: div_mult_self2 [of 60000 x "1440 * d"])
  moreover have "(60 * (24 * d) + x div 60000) mod 60 = x div 60000 mod 60"
    by (rule mod_drop [of _ _ "24 * d"]) simp
  ultimately show ?thesis by (simp add: MinFromTime_def msPerDay_def msPerMinute_def)
qed

lemma SecFromTime_shift: "SecFromTime (d * msPerDay + x) = SecFromTime x"
proof -
  have "d * 86400000 + x = x + 1000 * (86400 * d)" by simp
  then have "(d * 86400000 + x) div 1000 = 60 * (1440 * d) + x div 1000"
    by (simp only: div_mult_self2 [of 1000 x "86400 * d"])
  moreover have "(60 * (1440 * d) + x div 1000) mod 60 = x div 1000 mod 60"
    by (rule mod_drop [of _ _ "1440 * d"]) simp
  ultimately show ?thesis by (simp add: SecFromTime_def msPerDay_def msPerSecond_def)
qed

lemma msFromTime_shift: "msFromTime (d * msPerDay + x) = msFromTime x"
proof -
  have "d * 86400000 + x = x + 1000 * (86400 * d)" by simp
  then have "(d * 86400000 + x) mod 1000 = x mod 1000"
    by (simp only: mod_mult_self2)
  then show ?thesis by (simp add: msFromTime_def msPerDay_def msPerSecond_def)
qed

lemma MakeTime_roundtrip:
  "MakeTime (HourFromTime t) (MinFromTime t) (SecFromTime t) (msFromTime t) = TimeWithinDay t"
proof -
  have a: "t mod 60000 = 1000 * (t div 1000 mod 60) + t mod 1000"
    using zmod_zmult2_eq [of 60 t 1000] by simp
  have b: "t mod 3600000 = 60000 * (t div 60000 mod 60) + t mod 60000"
    using zmod_zmult2_eq [of 60 t 60000] by simp
  have c: "t mod 86400000 = 3600000 * (t div 3600000 mod 24) + t mod 3600000"
    using zmod_zmult2_eq [of 24 t 3600000] by simp
  show ?thesis
    unfolding MakeTime_def HourFromTime_def MinFromTime_def SecFromTime_def msFromTime_def
      TimeWithinDay_def msPerDay_def msPerHour_def msPerMinute_def msPerSecond_def
    using a b c by linarith
qed

lemma fields_of_noon:
  "HourFromTime (MakeTime 12 0 0 0) = 12" "MinFromTime (MakeTime 12 0 0 0) = 0"
  "SecFromTime (MakeTime 12 0 0 0) = 0" "msFromTime (MakeTime 12 0 0 0) = 0"
  by (simp_all add: MakeTime_def HourFromTime_def MinFromTime_def SecFromTime_def msFromTime_def
        msPerHour_def msPerMinute_def msPerSecond_def)

section \<open>What the factory stores\<close>

lemma DaysBeforeMonth_range:
  "0 \<le> DaysBeforeMonth y m \<and> DaysBeforeMonth y m \<le> 335"
  by (simp add: DaysBeforeMonth_def Let_def)

lemma Day_range:
  assumes "\<bar>t\<bar> \<le> 8640000000000000"
  shows "- 100000000 \<le> Day t" "Day t \<le> 100000000" "Day t = 100000000 \<Longrightarrow> t = 8640000000000000"
proof -
  have e: "Day t * 86400000 + TimeWithinDay t = t"
    using Day_TimeWithinDay [of t] by (simp add: msPerDay_def)
  have r: "0 \<le> TimeWithinDay t" "TimeWithinDay t < 86400000"
    using TimeWithinDay_range [of t] by (simp_all add: msPerDay_def)
  show "- 100000000 \<le> Day t" using e r assms by linarith
  show "Day t \<le> 100000000" using e r assms by linarith
  show "Day t = 100000000 \<Longrightarrow> t = 8640000000000000" using e r assms by linarith
qed

lemma rebuilt_day:
  assumes "\<bar>t\<bar> \<le> 8640000000000000"
  defines "D \<equiv> MakeDay (MakeFullYear (YearFromTime t)) (MonthFromTime t) (DateFromTime t)"
  shows "- 100000000 \<le> D" "D \<le> 100000000" "D = 100000000 \<Longrightarrow> t = 8640000000000000"
    "\<not> (0 \<le> YearFromTime t \<and> YearFromTime t \<le> 99) \<Longrightarrow> D = Day t"
proof -
  have plain: "D = Day t" if "\<not> (0 \<le> YearFromTime t \<and> YearFromTime t \<le> 99)"
    using that MakeDay_roundtrip [of t] by (auto simp: D_def MakeFullYear_def)
  have quirk: "- 25567 \<le> D \<and> D \<le> 11000" if q: "0 \<le> YearFromTime t \<and> YearFromTime t \<le> 99"
  proof -
    let ?y = "1900 + YearFromTime t"
    have m: "MonthFromTime t div 12 = 0" "MonthFromTime t mod 12 = MonthFromTime t"
      using MonthFromTime_range [of t] by simp_all
    have D: "D = DayFromYear ?y + DaysBeforeMonth ?y (MonthFromTime t) + DateFromTime t - 1"
      using q m by (simp add: D_def MakeFullYear_def MakeDay_def Let_def)
    have lo: "DayFromYear 1900 \<le> DayFromYear ?y" using q by (intro DayFromYear_mono) simp
    have hi: "DayFromYear ?y \<le> DayFromYear 1999" using q by (intro DayFromYear_mono) simp
    have v: "DayFromYear 1900 = - 25567" "DayFromYear 1999 = 10592"
      by (simp_all add: DayFromYear_def)
    show ?thesis
      using D lo hi v DaysBeforeMonth_range [of ?y "MonthFromTime t"] DateFromTime_range [of t]
      by linarith
  qed
  show "\<not> (0 \<le> YearFromTime t \<and> YearFromTime t \<le> 99) \<Longrightarrow> D = Day t" by (rule plain)
  show "- 100000000 \<le> D" using plain quirk Day_range(1) [OF assms(1)] by fastforce
  show "D \<le> 100000000" using plain quirk Day_range(2) [OF assms(1)] by fastforce
  show "D = 100000000 \<Longrightarrow> t = 8640000000000000"
    using plain quirk Day_range(3) [OF assms(1)] by fastforce
qed

lemma normalizeToUTC_value:
  assumes "input_time env h dateArg = Some t"
  shows "normalizeToUTC env dateArg norm h =
           Option.bind
             (TimeClip (MakeDate (MakeDay (MakeFullYear (YearFromTime t)) (MonthFromTime t)
                                    (DateFromTime t))
                          (if norm then MakeTime 12 0 0 0 else TimeWithinDay t)))
             TimeClip"
  using assms MakeTime_roundtrip [of t]
  by (simp add: normalizeToUTC_def input_time_def Date_of_number_def Date_UTC_def
        getUTCFullYear_def getUTCMonth_def getUTCDate_def getUTCHours_def getUTCMinutes_def
        getUTCSeconds_def getUTCMilliseconds_def)

lemma TimeClip_twice: "Option.bind (TimeClip v) TimeClip = TimeClip v"
  by (simp add: TimeClip_def)

lemma normalized_value:
  assumes "input_time env h dateArg = Some t" "\<bar>t\<bar> \<le> 8640000000000000"
    "t \<noteq> 8640000000000000"
  shows "\<exists>D. normalizeToUTC env dateArg True h = Some (D * msPerDay + MakeTime 12 0 0 0)"
proof -
  let ?D = "MakeDay (MakeFullYear (YearFromTime t)) (MonthFromTime t) (DateFromTime t)"
  note r = rebuilt_day [OF assms(2)]
  have "?D \<noteq> 100000000" using r(3) assms(3) by blast
  with r(1,2) have b: "- 100000000 \<le> ?D" "?D \<le> 99999999" by linarith+
  have "\<bar>?D * 86400000 + 43200000\<bar> \<le> 8640000000000000" using b by linarith
  then have "TimeClip (MakeDate ?D (MakeTime 12 0 0 0)) = Some (?D * msPerDay + MakeTime 12 0 0 0)"
    by (simp add: TimeClip_def MakeDate_def MakeTime_def msPerDay_def msPerHour_def
          msPerMinute_def msPerSecond_def)
  moreover have "normalizeToUTC env dateArg True h = TimeClip (MakeDate ?D (MakeTime 12 0 0 0))"
    using normalizeToUTC_value [OF assms(1), of True] by (simp add: TimeClip_twice)
  ultimately have "normalizeToUTC env dateArg True h = Some (?D * msPerDay + MakeTime 12 0 0 0)"
    by (simp only:)
  then show ?thesis by (rule exI)
qed

lemma preserved_value:
  assumes "input_time env h dateArg = Some t" "\<bar>t\<bar> \<le> 8640000000000000"
  shows "\<exists>D. normalizeToUTC env dateArg False h = Some (D * msPerDay + TimeWithinDay t)"
proof -
  let ?D = "MakeDay (MakeFullYear (YearFromTime t)) (MonthFromTime t) (DateFromTime t)"
  note r = rebuilt_day [OF assms(2)]
  have tw: "0 \<le> TimeWithinDay t" "TimeWithinDay t < 86400000"
    using TimeWithinDay_range [of t] by (simp_all add: msPerDay_def)
  have "\<bar>?D * 86400000 + TimeWithinDay t\<bar> \<le> 8640000000000000"
  proof (cases "0 \<le> YearFromTime t \<and> YearFromTime t \<le> 99")
    case True
    have m: "MonthFromTime t div 12 = 0" "MonthFromTime t mod 12 = MonthFromTime t"
      using MonthFromTime_range [of t] by simp_all
    let ?y = "1900 + YearFromTime t"
    have D: "?D = DayFromYear ?y + DaysBeforeMonth ?y (MonthFromTime t) + DateFromTime t - 1"
      using True m by (simp add: MakeFullYear_def MakeDay_def Let_def)
    have lo: "DayFromYear 1900 \<le> DayFromYear ?y" using True by (intro DayFromYear_mono) simp
    have hi: "DayFromYear ?y \<le> DayFromYear 1999" using True by (intro DayFromYear_mono) simp
    have v: "DayFromYear 1900 = - 25567" "DayFromYear 1999 = 10592"
      by (simp_all add: DayFromYear_def)
    have "- 25567 \<le> ?D \<and> ?D \<le> 11000"
      using D lo hi v DaysBeforeMonth_range [of ?y "MonthFromTime t"] DateFromTime_range [of t]
      by linarith
    then show ?thesis using tw by linarith
  next
    case False
    then have "?D = Day t" by (rule r(4))
    then have "?D * 86400000 + TimeWithinDay t = t"
      using Day_TimeWithinDay [of t] by (simp add: msPerDay_def)
    then show ?thesis using assms(2) by simp
  qed
  then have "TimeClip (MakeDate ?D (TimeWithinDay t)) = Some (?D * msPerDay + TimeWithinDay t)"
    by (simp add: TimeClip_def MakeDate_def msPerDay_def)
  moreover have "normalizeToUTC env dateArg False h = TimeClip (MakeDate ?D (TimeWithinDay t))"
    using normalizeToUTC_value [OF assms(1), of False] by (simp add: TimeClip_twice)
  ultimately have "normalizeToUTC env dateArg False h = Some (?D * msPerDay + TimeWithinDay t)"
    by (simp only:)
  then show ?thesis by (rule exI)
qed

lemma fields_of_TimeWithinDay:
  "HourFromTime (D * msPerDay + TimeWithinDay t) = HourFromTime t"
  "MinFromTime (D * msPerDay + TimeWithinDay t) = MinFromTime t"
  "SecFromTime (D * msPerDay + TimeWithinDay t) = SecFromTime t"
  "msFromTime (D * msPerDay + TimeWithinDay t) = msFromTime t"
proof -
  have e: "t = Day t * msPerDay + TimeWithinDay t" using Day_TimeWithinDay [of t] by simp
  show "HourFromTime (D * msPerDay + TimeWithinDay t) = HourFromTime t"
    using HourFromTime_shift [of D "TimeWithinDay t"] HourFromTime_shift [of "Day t" "TimeWithinDay t"] e
    by simp
  show "MinFromTime (D * msPerDay + TimeWithinDay t) = MinFromTime t"
    using MinFromTime_shift [of D "TimeWithinDay t"] MinFromTime_shift [of "Day t" "TimeWithinDay t"] e
    by simp
  show "SecFromTime (D * msPerDay + TimeWithinDay t) = SecFromTime t"
    using SecFromTime_shift [of D "TimeWithinDay t"] SecFromTime_shift [of "Day t" "TimeWithinDay t"] e
    by simp
  show "msFromTime (D * msPerDay + TimeWithinDay t) = msFromTime t"
    using msFromTime_shift [of D "TimeWithinDay t"] msFromTime_shift [of "Day t" "TimeWithinDay t"] e
    by simp
qed

lemma deref_alloc_new: "deref (h @ [v]) (length h) = v"
  by (simp add: deref_def)

lemma deref_alloc_old: "a < length h \<Longrightarrow> deref (h @ [v]) a = deref h a"
  by (simp add: deref_def nth_append)

lemma factory_result:
  "XBDateFactory env dateArg optionsArg h =
     (XBDate (length h),
      h @ [normalizeToUTC env dateArg (optionsArg \<noteq> Some \<lparr> normalize = Some False \<rparr>) h])"
proof -
  have "(normalize (spread DEFAULT_OPTIONS
           (case optionsArg of None \<Rightarrow> DEFAULT_OPTIONS | Some opts \<Rightarrow> opts)) = Some True)
        = (optionsArg \<noteq> Some \<lparr> normalize = Some False \<rparr>)"
  proof (cases optionsArg)
    case None
    then show ?thesis by (simp add: spread_def DEFAULT_OPTIONS_def)
  next
    case (Some opts)
    then show ?thesis
      by (cases opts; cases "normalize opts") (auto simp: spread_def DEFAULT_OPTIONS_def)
  qed
  then show ?thesis by (simp add: XBDateFactory_def alloc_def Let_def)
qed

lemma normalized_time_of_day:
  assumes "input_time env h dateArg = Some t" and "\<bar>t\<bar> \<le> 8640000000000000"
    and "t \<noteq> 8640000000000000"
  shows "getHours (XBDate (length h)) (h @ [normalizeToUTC env dateArg True h]) = Some 12
      \<and> getMinutes (XBDate (length h)) (h @ [normalizeToUTC env dateArg True h]) = Some 0
      \<and> getSeconds (XBDate (length h)) (h @ [normalizeToUTC env dateArg True h]) = Some 0
      \<and> getUTCMilliseconds (getTime (XBDate (length h)) (h @ [normalizeToUTC env dateArg True h]))
          = Some 0"
proof -
  obtain D where "normalizeToUTC env dateArg True h = Some (D * msPerDay + MakeTime 12 0 0 0)"
    using normalized_value [OF assms] by blast
  then show ?thesis
    by (simp add: getHours_def getMinutes_def getSeconds_def getTime_def deref_alloc_new
          getUTCHours_def getUTCMinutes_def getUTCSeconds_def getUTCMilliseconds_def
          HourFromTime_shift MinFromTime_shift SecFromTime_shift msFromTime_shift
          fields_of_noon)
qed

section \<open>The setters\<close>

lemma DayFromYear_next: "DayFromYear y + 365 \<le> DayFromYear (y + 1)"
  using DayFromYear_step [of y] by (simp add: DaysInYear_def)

lemma YearFromTime_of_day:
  assumes "DayFromYear y \<le> D" "D < DayFromYear y + 365" "0 \<le> x" "x < msPerDay"
  shows "YearFromTime (D * msPerDay + x) = y"
proof -
  have "Day (D * msPerDay + x) = D" using assms(3,4) by (simp add: Day_shift Day_of_small)
  moreover have "D < DayFromYear (y + 1)" using assms(2) DayFromYear_next [of y] by linarith
  ultimately show ?thesis
    unfolding YearFromTime_def using assms(1) by (simp add: YearFromDay_unique)
qed

lemma TimeClip_valid: "\<bar>t\<bar> \<le> 8640000000000000 \<Longrightarrow> TimeClip t = Some t"
  by (simp add: TimeClip_def)







section \<open>The computed year and day meet their specification\<close>

lemma Day_le_iff: "(DayFromYear y \<le> Day t) = (TimeFromYear y \<le> t)"
proof -
  have z: "(0::int) < 86400000" by simp
  note b = div_bounds [OF z, of t]
  define q where "q = t div 86400000"
  define a where "a = DayFromYear y"
  have "(a \<le> q) = (86400000 * a \<le> t)"
    using b [folded q_def] by (cases "a \<le> q") linarith+
  then show ?thesis by (simp add: Day_def TimeFromYear_def msPerDay_def q_def a_def)
qed

lemma YearFromTime_largest: "(TimeFromYear y \<le> t) = (y \<le> YearFromTime t)"
proof
  assume "TimeFromYear y \<le> t"
  then have le: "DayFromYear y \<le> Day t" by (simp add: Day_le_iff)
  show "y \<le> YearFromTime t"
  proof (rule ccontr)
    assume "\<not> y \<le> YearFromTime t"
    then have "YearFromTime t + 1 \<le> y" by simp
    then have "DayFromYear (YearFromTime t + 1) \<le> DayFromYear y" by (rule DayFromYear_mono)
    with le YearFromTime_bounds(2) [of t] show False by linarith
  qed
next
  assume "y \<le> YearFromTime t"
  then have "DayFromYear y \<le> DayFromYear (YearFromTime t)" by (rule DayFromYear_mono)
  with YearFromTime_bounds(1) [of t] have "DayFromYear y \<le> Day t" by linarith
  then show "TimeFromYear y \<le> t" by (simp add: Day_le_iff)
qed

lemma DaysBeforeMonth_lt_year:
  "0 \<le> DaysBeforeMonth y mn \<and> DaysBeforeMonth y mn < 365"
  by (simp add: DaysBeforeMonth_def Let_def)

lemma Day_of_days: "Day (D * msPerDay) = D"
  by (simp add: Day_def msPerDay_def)

lemma MakeDay_first_of_month:
  "YearFromTime (MakeDay y m 1 * msPerDay) = y + m div 12
   \<and> MonthFromTime (MakeDay y m 1 * msPerDay) = m mod 12
   \<and> DateFromTime (MakeDay y m 1 * msPerDay) = 1"
proof -
  define ym where "ym = y + m div 12"
  define mn where "mn = m mod 12"
  let ?t = "MakeDay y m 1 * msPerDay"
  have mr: "mn \<in> {0, 1, 2, 3, 4, 5, 6, 7, 8, 9, 10, 11}"
  proof -
    have "0 \<le> mn" "mn < 12" by (simp_all add: mn_def)
    then have "mn = 0 \<or> mn = 1 \<or> mn = 2 \<or> mn = 3 \<or> mn = 4 \<or> mn = 5 \<or> mn = 6 \<or> mn = 7
        \<or> mn = 8 \<or> mn = 9 \<or> mn = 10 \<or> mn = 11" by presburger
    then show ?thesis by simp
  qed
  have md: "MakeDay y m 1 = DayFromYear ym + DaysBeforeMonth ym mn"
    by (simp add: MakeDay_def Let_def ym_def mn_def)
  have t: "?t = (DayFromYear ym + DaysBeforeMonth ym mn) * msPerDay + 0" by (simp add: md)
  have yr: "YearFromTime ?t = ym"
    unfolding t using DaysBeforeMonth_lt_year [of ym mn]
    by (intro YearFromTime_of_day) (simp_all add: msPerDay_def)
  have "Day ?t = DayFromYear ym + DaysBeforeMonth ym mn"
    by (simp only: md Day_of_days)
  then have dw: "DayWithinYear ?t = DaysBeforeMonth ym mn" by (simp add: DayWithinYear_def yr)
  have mo: "MonthFromTime ?t = mn"
    using mr by (auto simp: MonthFromTime_def dw InLeapYear_def yr DaysBeforeMonth_def Let_def)
  have "DateFromTime ?t = 1"
    using mr by (auto simp: DateFromTime_def mo dw InLeapYear_def yr DaysBeforeMonth_def Let_def)
  with yr mo show ?thesis by (simp add: ym_def mn_def)
qed

section \<open>\<open>add\<close> and \<open>subtract\<close> only allocate\<close>

lemma reduce_heap_prefix:
  assumes step: "\<And>acc k h r h'. f acc k h = Inr (r, h') \<Longrightarrow> \<exists>ext. h' = h @ ext"
    and "reduce f ks acc h = Inr (r, h')"
  shows "\<exists>ext. h' = h @ ext"
  using assms(2)
proof (induction ks arbitrary: acc h)
  case Nil
  then show ?case by simp
next
  case (Cons k ks)
  from Cons.prems obtain a1 h1 where 1: "f acc k h = Inr (a1, h1)"
    and 2: "reduce f ks a1 h1 = Inr (r, h')"
    by (auto split: sum.splits)
  from step [OF 1] obtain e1 where "h1 = h @ e1" by blast
  moreover from Cons.IH [OF 2] obtain e2 where "h' = h1 @ e2" by blast
  ultimately show ?case by simp
qed

lemma add_heap_prefix:
  assumes "add env date unit val h = Inr (r, h')"
  shows "\<exists>ext. h' = h @ ext"
  using assms
  by (cases date) (auto simp: add_def Let_def alloc_def factory_result)

lemma add_method_leaves_store:
  assumes "add_method env this summands h = Inr (r, h')" and "a < length h"
  shows "deref h' a = deref h a"
proof -
  have "\<exists>ext. h' = h @ ext"
  proof (rule reduce_heap_prefix [OF _ assms(1) [unfolded add_method_def]])
    fix acc k h r h'
    assume "(case k of (key, amount) \<Rightarrow> \<lambda>h. case add env acc key amount h of
                Inl e \<Rightarrow> Inl e | Inr (r, h') \<Rightarrow> Inr (XBDateRef r, h')) h = Inr (r, h')"
    then show "\<exists>ext. h' = h @ ext"
      using add_heap_prefix by (cases k) (auto split: sum.splits)
  qed
  then show ?thesis using assms(2) by (auto simp: deref_def nth_append)
qed

lemma subtract_method_leaves_store:
  assumes "subtract_method env this subtrahends h = Inr (r, h')" and "a < length h"
  shows "deref h' a = deref h a"
proof -
  have "\<exists>ext. h' = h @ ext"
  proof (rule reduce_heap_prefix [OF _ assms(1) [unfolded subtract_method_def]])
    fix acc k h r h'
    assume "(case k of (key, amount) \<Rightarrow> \<lambda>h. case add env acc key (- 1 * amount) h of
                Inl e \<Rightarrow> Inl e | Inr (r, h') \<Rightarrow> Inr (XBDateRef r, h')) h = Inr (r, h')"
    then show "\<exists>ext. h' = h @ ext"
      using add_heap_prefix by (cases k) (auto split: sum.splits)
  qed
  then show ?thesis using assms(2) by (auto simp: deref_def nth_append)
qed

lemma add_method_one_unit:
  "add_method env this (Some [(unit, n)]) h =
     (case add env (DateRef (get this)) unit n h of
        Inl e \<Rightarrow> Inl e | Inr (r, h') \<Rightarrow> Inr (XBDateRef r, h'))"
  by (simp add: add_method_def split: sum.splits)

lemma subtract_method_one_unit:
  "subtract_method env this (Some [(unit, n)]) h = add_method env this (Some [(unit, - n)]) h"
  by (simp add: add_method_def subtract_method_def split: sum.splits)

lemma add_one_unit_is_new:
  "\<exists>v w. add env (DateRef (get this)) unit n h
          = Inr (XBDate (Suc (length h)), h @ [v, w])"
  by (simp add: add_def Let_def alloc_def factory_result)

section \<open>The comparable of \<open>is\<close>\<close>

subsection \<open>Decimal strings\<close>

lemma is_digit_digit_char:
  assumes "n < 10"
  shows "is_digit (digit_char n)"
proof -
  have "list_all (\<lambda>k. is_digit (digit_char k)) [0..<10]" by code_simp
  then show ?thesis using assms by (simp add: list_all_iff)
qed

lemma digit_value_digit_char: "n < 10 \<Longrightarrow> digit_value (digit_char n) = int n"
  by (simp add: digit_value_def digit_char_def)

lemma minus_not_digit: "\<not> is_digit (CHR ''-'')"
  by (simp add: is_digit_def)

lemma numeral_value_snoc:
  "numeral_value (str @ [c]) = numeral_value str * 10 + digit_value c"
  by (simp add: numeral_value_def)

lemma numeral_value_append:
  "numeral_value (a @ b) = numeral_value a * 10 ^ length b + numeral_value b"
proof (induction b rule: rev_induct)
  case Nil
  show ?case by (simp add: numeral_value_def)
next
  case (snoc c b)
  have "numeral_value (a @ b @ [c]) = numeral_value ((a @ b) @ [c])" by simp
  also have "\<dots> = numeral_value (a @ b) * 10 + digit_value c" by (rule numeral_value_snoc)
  finally show ?case by (simp add: snoc.IH numeral_value_snoc algebra_simps)
qed

lemma digits_props:
  "list_all is_digit (digits n) \<and> digits n \<noteq> [] \<and> numeral_value (digits n) = int n"
proof (induction n rule: digits.induct)
  case (1 n)
  show ?case
  proof (cases "n < 10")
    case True
    then show ?thesis
      by (subst (1 2 3) digits.simps)
         (simp add: is_digit_digit_char digit_value_digit_char numeral_value_def)
  next
    case False
    have m: "n mod 10 < 10" by simp
    from False 1 have IH: "list_all is_digit (digits (n div 10))"
      "numeral_value (digits (n div 10)) = int (n div 10)" by simp_all
    have "int (n div 10) * 10 + int (n mod 10) = int n"
      by (metis of_nat_add of_nat_mult of_nat_numeral div_mult_mod_eq)
    then show ?thesis
      using False IH m
      by (subst (1 2 3) digits.simps)
         (simp add: is_digit_digit_char digit_value_digit_char numeral_value_snoc)
  qed
qed

lemma padded_props:
  assumes "0 \<le> m" "m \<le> 99"
  shows "list_all is_digit (padded (Some m)) \<and> length (padded (Some m)) = 2
         \<and> numeral_value (padded (Some m)) = m"
proof (cases "m < 10")
  case True
  then have s: "nat m < 10" using assms by simp
  then have d: "digits (nat m) = [digit_char (nat m)]"
    by (subst digits.simps) simp
  have z: "is_digit (CHR ''0'')" "digit_value (CHR ''0'') = 0"
    by (simp_all add: is_digit_def digit_value_def)
  show ?thesis
    using True assms z s
    by (simp add: padded_def padStart_def String_of_number_def d is_digit_digit_char
          numeral_value_def digit_value_digit_char)
next
  case False
  then have n: "\<not> nat m < 10" "nat m div 10 < 10" using assms by simp_all
  have d: "digits (nat m) = [digit_char (nat m div 10), digit_char (nat m mod 10)]"
    using n by (subst digits.simps, simp, subst digits.simps, simp)
  have "int (nat m div 10) * 10 + int (nat m mod 10) = int (nat m)"
    by (metis of_nat_add of_nat_mult of_nat_numeral div_mult_mod_eq)
  then have v: "int (nat m div 10) * 10 + int (nat m mod 10) = m" using assms by simp
  show ?thesis
    using False assms n v
    by (simp add: padded_def padStart_def String_of_number_def d is_digit_digit_char
          numeral_value_def digit_value_digit_char)
qed

lemma Number_of_digits:
  assumes "list_all is_digit str" "str \<noteq> []"
  shows "Number_of_string str = Some (numeral_value str)"
    and "Number_of_string (CHR ''-'' # str) = Some (- numeral_value str)"
proof -
  obtain c cs where s: "str = c # cs" using assms(2) by (cases str) auto
  then have "c \<noteq> CHR ''-''" using assms(1) minus_not_digit by auto
  then show "Number_of_string str = Some (numeral_value str)"
    using assms(1) s by (simp add: Number_of_string_def)
  show "Number_of_string (CHR ''-'' # str) = Some (- numeral_value str)"
    using assms by (simp add: Number_of_string_def)
qed

text \<open>The decimal text of the year, month and day, without the sign.\<close>

lemma comparable_digits:
  fixes n :: nat and m d :: int
  assumes "0 \<le> m" "m \<le> 99" "0 \<le> d" "d \<le> 99"
  defines "s \<equiv> (\<lambda>p. concat (take (COMPARE_TO p) [digits n, padded (Some m), padded (Some d)]))"
  shows "list_all is_digit (s p) \<and> s p \<noteq> []"
    and "numeral_value (s UnitYear) = int n"
    and "numeral_value (s UnitMonth) = int n * 100 + m"
    and "numeral_value (s UnitDay) = int n * 10000 + m * 100 + d"
proof -
  note pm = padded_props [OF assms(1,2)]
  note pd = padded_props [OF assms(3,4)]
  note dg = digits_props [of n]
  show "list_all is_digit (s p) \<and> s p \<noteq> []"
    using pm pd dg by (cases p) (simp_all add: s_def COMPARE_TO_def)
  show "numeral_value (s UnitYear) = int n"
    using dg by (simp add: s_def COMPARE_TO_def)
  show "numeral_value (s UnitMonth) = int n * 100 + m"
    using pm dg by (simp add: s_def COMPARE_TO_def numeral_value_append)
  show "numeral_value (s UnitDay) = int n * 10000 + m * 100 + d"
    using pm pd dg
    by (simp add: s_def COMPARE_TO_def numeral_value_append algebra_simps)
qed

lemma comparable_value:
  "Number_of_string (getComparableDate (Some t) p) =
     Some (if 0 \<le> YearFromTime t
           then field_number p (YearFromTime t) (MonthFromTime t) (DateFromTime t)
           else - field_number p (- YearFromTime t) (MonthFromTime t) (DateFromTime t))"
proof -
  let ?y = "YearFromTime t" and ?m = "MonthFromTime t" and ?d = "DateFromTime t"
  have m: "0 \<le> ?m" "?m \<le> 99" using MonthFromTime_range [of t] by simp_all
  have d: "0 \<le> ?d" "?d \<le> 99" using DateFromTime_range [of t] by simp_all
  show ?thesis
  proof (cases "0 \<le> ?y")
    case True
    note c = comparable_digits [OF m d, where n = "nat ?y"]
    have g: "getComparableDate (Some t) p
        = concat (take (COMPARE_TO p) [digits (nat ?y), padded (Some ?m), padded (Some ?d)])"
      using True
      by (simp add: getComparableDate_def getUTCFullYear_def getUTCMonth_def getUTCDate_def
            String_of_number_def)
    have n: "Number_of_string (concat (take (COMPARE_TO p)
                 [digits (nat ?y), padded (Some ?m), padded (Some ?d)]))
        = Some (numeral_value (concat (take (COMPARE_TO p)
                 [digits (nat ?y), padded (Some ?m), padded (Some ?d)])))"
      using c(1) [of p] by (intro Number_of_digits(1)) simp_all
    show ?thesis
      unfolding g n using True c(2,3,4) by (cases p) (simp_all add: field_number_def)
  next
    case False
    note c = comparable_digits [OF m d, where n = "nat (- ?y)"]
    have g: "getComparableDate (Some t) p
        = CHR ''-'' # concat (take (COMPARE_TO p)
                        [digits (nat (- ?y)), padded (Some ?m), padded (Some ?d)])"
      using False
      by (cases p)
         (simp_all add: getComparableDate_def getUTCFullYear_def getUTCMonth_def getUTCDate_def
            String_of_number_def COMPARE_TO_def)
    have n: "Number_of_string (CHR ''-'' # concat (take (COMPARE_TO p)
                 [digits (nat (- ?y)), padded (Some ?m), padded (Some ?d)]))
        = Some (- numeral_value (concat (take (COMPARE_TO p)
                        [digits (nat (- ?y)), padded (Some ?m), padded (Some ?d)])))"
      using c(1) [of p] by (intro Number_of_digits(2)) simp_all
    show ?thesis
      unfolding g n using False c(2,3,4) by (cases p) (simp_all add: field_number_def)
  qed
qed

subsection \<open>Order\<close>

lemma month_mono:
  assumes "YearFromTime t = YearFromTime t'" "DayWithinYear t \<le> DayWithinYear t'"
  shows "MonthFromTime t \<le> MonthFromTime t'"
  using assms unfolding MonthFromTime_def InLeapYear_def Let_def
  by (simp split: if_splits)

lemma Day_from_fields:
  "Day t = DayFromYear (YearFromTime t) + DaysBeforeMonth (YearFromTime t) (MonthFromTime t)
             + DateFromTime t - 1"
  using within_year_roundtrip [of t] by (simp add: DayWithinYear_def)

lemma year_lt_imp_day_lt:
  assumes "YearFromTime t < YearFromTime t'"
  shows "Day t < Day t'"
proof -
  have "YearFromTime t + 1 \<le> YearFromTime t'" using assms by simp
  then have "DayFromYear (YearFromTime t + 1) \<le> DayFromYear (YearFromTime t')"
    by (rule DayFromYear_mono)
  with YearFromTime_bounds(2) [of t] YearFromTime_bounds(1) [of t'] show ?thesis by linarith
qed

lemma month_lt_imp_day_lt:
  assumes "YearFromTime t = YearFromTime t'" "MonthFromTime t < MonthFromTime t'"
  shows "Day t < Day t'"
proof (rule ccontr)
  assume "\<not> Day t < Day t'"
  then have "DayWithinYear t' \<le> DayWithinYear t" using assms(1) by (simp add: DayWithinYear_def)
  then have "MonthFromTime t' \<le> MonthFromTime t" using assms(1) by (intro month_mono) simp_all
  with assms(2) show False by simp
qed

lemma date_lt_imp_day_lt:
  assumes "YearFromTime t = YearFromTime t'" "MonthFromTime t = MonthFromTime t'"
    "DateFromTime t < DateFromTime t'"
  shows "Day t < Day t'"
  using assms Day_from_fields [of t] Day_from_fields [of t'] by simp

lemma same_fields_same_day:
  assumes "YearFromTime t = YearFromTime t'" "MonthFromTime t = MonthFromTime t'"
    "DateFromTime t = DateFromTime t'"
  shows "Day t = Day t'"
  using assms Day_from_fields [of t] Day_from_fields [of t'] by simp

text \<open>
  For years \<open>\<ge> 0\<close> the number built from the fields orders instants as the calendar does,
  at each precision.
\<close>

lemma field_number_order:
  fixes p :: DateUnit
  assumes "0 \<le> YearFromTime t" "0 \<le> YearFromTime t'"
  defines "F \<equiv> (\<lambda>t. field_number p (YearFromTime t) (MonthFromTime t) (DateFromTime t))"
  shows "(F t < F t') = (calendar_index p t < calendar_index p t')"
    and "(F t = F t') = (calendar_index p t = calendar_index p t')"
proof -
  let ?y = "YearFromTime t" and ?m = "MonthFromTime t" and ?d = "DateFromTime t"
  let ?y' = "YearFromTime t'" and ?m' = "MonthFromTime t'" and ?d' = "DateFromTime t'"
  note r = MonthFromTime_range [of t] MonthFromTime_range [of t']
    DateFromTime_range [of t] DateFromTime_range [of t']
  have lt: "F a < F b \<and> calendar_index p a < calendar_index p b"
    if "YearFromTime a < YearFromTime b
        \<or> (YearFromTime a = YearFromTime b \<and> p \<noteq> UnitYear \<and> MonthFromTime a < MonthFromTime b)
        \<or> (YearFromTime a = YearFromTime b \<and> MonthFromTime a = MonthFromTime b \<and> p = UnitDay
            \<and> DateFromTime a < DateFromTime b)" for a b
  proof -
    note ra = MonthFromTime_range [of a] MonthFromTime_range [of b]
      DateFromTime_range [of a] DateFromTime_range [of b]
    have 1: "F a < F b"
      using that ra unfolding F_def field_number_def by (cases p) (simp; linarith)+
    have 2: "calendar_index p a < calendar_index p b"
    proof (cases p)
      case UnitYear
      then show ?thesis using that by (auto simp: calendar_index_def)
    next
      case UnitMonth
      then show ?thesis using that ra unfolding calendar_index_def by simp linarith
    next
      case UnitDay
      then show ?thesis
        using that year_lt_imp_day_lt [of a b] month_lt_imp_day_lt [of a b]
          date_lt_imp_day_lt [of a b]
        by (auto simp: calendar_index_def)
    qed
    from 1 2 show ?thesis ..
  qed
  have eq: "F t = F t' \<and> calendar_index p t = calendar_index p t'"
    if "?y = ?y'" "p = UnitYear \<or> ?m = ?m'" "p \<noteq> UnitDay \<or> ?d = ?d'"
    using that same_fields_same_day [of t t']
    unfolding F_def field_number_def calendar_index_def by (cases p) auto
  consider
      (less) "?y < ?y' \<or> (?y = ?y' \<and> p \<noteq> UnitYear \<and> ?m < ?m')
              \<or> (?y = ?y' \<and> ?m = ?m' \<and> p = UnitDay \<and> ?d < ?d')"
    | (greater) "?y' < ?y \<or> (?y' = ?y \<and> p \<noteq> UnitYear \<and> ?m' < ?m)
              \<or> (?y' = ?y \<and> ?m' = ?m \<and> p = UnitDay \<and> ?d' < ?d)"
    | (same) "?y = ?y'" "p = UnitYear \<or> ?m = ?m'" "p \<noteq> UnitDay \<or> ?d = ?d'"
    by (cases p) (simp; linarith)+
  then have "((F t < F t') = (calendar_index p t < calendar_index p t'))
      \<and> ((F t = F t') = (calendar_index p t = calendar_index p t'))"
  proof cases
    case less
    from lt [OF less] show ?thesis by simp
  next
    case greater
    from lt [OF greater] show ?thesis by auto
  next
    case same
    from eq [OF same] show ?thesis by simp
  qed
  then show "(F t < F t') = (calendar_index p t < calendar_index p t')"
    and "(F t = F t') = (calendar_index p t = calendar_index p t')" by simp_all
qed

lemma compare_operators:
  "compare ''<'' (Some x) (Some y) = (x < y)"
  "compare ''<='' (Some x) (Some y) = (x \<le> y)"
  "compare ''>'' (Some x) (Some y) = (x > y)"
  "compare ''>='' (Some x) (Some y) = (x \<ge> y)"
  "compare ''='' (Some x) (Some y) = (x = y)"
  by (simp_all add: compare_def getSafeOperator_def)

text \<open>
  For two valid dates in years \<open>\<ge> 0\<close>, \<open>is\<close> answers as calendar order does at the given
  precision, for each of the five operators.
\<close>

lemma is_calendar_order:
  fixes precision :: "DateUnit option"
  assumes "deref h (get this) = Some t" "deref h (get otherDate) = Some t'"
    and "0 \<le> YearFromTime t" "0 \<le> YearFromTime t'"
  defines "p \<equiv> (case precision of None \<Rightarrow> UnitDay | Some q \<Rightarrow> q)"
  shows "is_method this ''<'' otherDate precision h = (calendar_index p t < calendar_index p t')"
    and "is_method this ''<='' otherDate precision h = (calendar_index p t \<le> calendar_index p t')"
    and "is_method this ''>'' otherDate precision h = (calendar_index p t > calendar_index p t')"
    and "is_method this ''>='' otherDate precision h = (calendar_index p t \<ge> calendar_index p t')"
    and "is_method this ''='' otherDate precision h = (calendar_index p t = calendar_index p t')"
proof -
  note o = field_number_order [OF assms(3,4), of p]
  have c: "Number_of_string (getComparableDate (Some t) p)
             = Some (field_number p (YearFromTime t) (MonthFromTime t) (DateFromTime t))"
    "Number_of_string (getComparableDate (Some t') p)
             = Some (field_number p (YearFromTime t') (MonthFromTime t') (DateFromTime t'))"
    using assms(3,4) by (simp_all add: comparable_value)
  show "is_method this ''<'' otherDate precision h = (calendar_index p t < calendar_index p t')"
    using o by (simp add: is_method_def assms(1,2) p_def [symmetric] c compare_operators)
  show "is_method this ''='' otherDate precision h = (calendar_index p t = calendar_index p t')"
    using o by (simp add: is_method_def assms(1,2) p_def [symmetric] c compare_operators)
  have le: "(x \<le> y) = (\<not> y < x)" for x y :: int by auto
  note o' = field_number_order(1) [OF assms(4,3), of p]
  show "is_method this ''>'' otherDate precision h = (calendar_index p t > calendar_index p t')"
    using o' by (simp add: is_method_def assms(1,2) p_def [symmetric] c compare_operators)
  show "is_method this ''<='' otherDate precision h = (calendar_index p t \<le> calendar_index p t')"
    unfolding le using o' by (simp add: is_method_def assms(1,2) p_def [symmetric] c compare_def
          getSafeOperator_def le)
  show "is_method this ''>='' otherDate precision h = (calendar_index p t \<ge> calendar_index p t')"
    unfolding le using o(1) by (simp add: is_method_def assms(1,2) p_def [symmetric] c compare_def
          getSafeOperator_def le)
qed

text \<open>At year precision the comparable is the year itself, whatever its sign.\<close>

lemma is_same_year:
  assumes "deref h (get this) = Some t" "deref h (get otherDate) = Some t'"
  shows "is_method this ''='' otherDate (Some UnitYear) h = (YearFromTime t = YearFromTime t')"
  by (simp add: is_method_def assms comparable_value field_number_def compare_operators)

section \<open>Adding days\<close>

lemma MakeDay_add_date: "MakeDay y m (d + n) = MakeDay y m d + n"
  by (simp add: MakeDay_def Let_def)

lemma normalized_value_exact:
  assumes "input_time env h dateArg = Some u" "\<bar>u\<bar> \<le> 8640000000000000"
    and "Day u < 100000000"
    and "\<not> (0 \<le> YearFromTime u \<and> YearFromTime u \<le> 99)"
  shows "normalizeToUTC env dateArg True h = Some (Day u * msPerDay + MakeTime 12 0 0 0)"
proof -
  let ?D = "MakeDay (MakeFullYear (YearFromTime u)) (MonthFromTime u) (DateFromTime u)"
  have D: "?D = Day u" by (rule rebuilt_day(4) [OF assms(2,4)])
  have "- 100000000 \<le> Day u" by (rule Day_range(1) [OF assms(2)])
  with assms(3) have "\<bar>Day u * 86400000 + 43200000\<bar> \<le> 8640000000000000" by linarith
  then have "TimeClip (MakeDate ?D (MakeTime 12 0 0 0)) = Some (Day u * msPerDay + MakeTime 12 0 0 0)"
    unfolding D
    by (simp add: TimeClip_def MakeDate_def MakeTime_def msPerDay_def msPerHour_def
          msPerMinute_def msPerSecond_def)
  moreover have "normalizeToUTC env dateArg True h = TimeClip (MakeDate ?D (MakeTime 12 0 0 0))"
    using normalizeToUTC_value [OF assms(1), of True] by (simp add: TimeClip_twice)
  ultimately show ?thesis by (simp only:)
qed

lemma add_day_step:
  fixes env :: host and n t :: int
  defines "loc \<equiv> (Day t + n) * msPerDay + TimeWithinDay t"
  assumes r: "deref h a = Some t"
    and y: "\<not> (0 \<le> YearFromTime t \<and> YearFromTime t \<le> 99)"
    and z: "0 \<le> TimeWithinDay t - LocalTZA env loc" "TimeWithinDay t - LocalTZA env loc < msPerDay"
    and b: "- 100000000 \<le> Day t + n" "Day t + n < 100000000"
    and y': "\<not> (0 \<le> YearFromDay (Day t + n) \<and> YearFromDay (Day t + n) \<le> 99)"
  shows "add env (DateRef a) UnitDay n h =
           Inr (XBDate (Suc (length h)),
                h @ [Some (loc - LocalTZA env loc),
                     Some ((Day t + n) * msPerDay + MakeTime 12 0 0 0)])"
proof -
  define u where "u = loc - LocalTZA env loc"
  define x where "x = TimeWithinDay t - LocalTZA env loc"
  have ue: "u = (Day t + n) * msPerDay + x" by (simp add: u_def x_def loc_def)
  have xr: "0 \<le> x" "x < msPerDay" using z by (simp_all add: x_def)
  have du: "Day u = Day t + n" unfolding ue using xr by (simp add: Day_shift Day_of_small)
  have ur: "\<bar>u\<bar> \<le> 8640000000000000"
  proof -
    define D where "D = Day t + n"
    have "0 \<le> x" "x < 86400000" using xr by (simp_all add: msPerDay_def)
    moreover have "u = D * 86400000 + x" using ue by (simp add: msPerDay_def D_def)
    moreover have "- 100000000 \<le> D" "D < 100000000" using b by (simp_all add: D_def)
    ultimately show ?thesis by linarith
  qed
  have fields: "Date_of_fields (LocalTZA env)
        (map_option (\<lambda>y. y + 0) (getUTCFullYear (Some t)))
        (map_option (\<lambda>m. m + 0) (getUTCMonth (Some t)))
        (map_option (\<lambda>dt. dt + n) (getUTCDate (Some t)))
        (getUTCHours (Some t)) (getUTCMinutes (Some t)) (getUTCSeconds (Some t))
        (getUTCMilliseconds (Some t)) = Some u"
  proof -
    have "MakeFullYear (YearFromTime t) = YearFromTime t" using y by (simp add: MakeFullYear_def)
    then have "MakeDate (MakeDay (MakeFullYear (YearFromTime t)) (MonthFromTime t)
                  (DateFromTime t + n))
                (MakeTime (HourFromTime t) (MinFromTime t) (SecFromTime t) (msFromTime t)) = loc"
      by (simp add: MakeDay_add_date MakeDay_roundtrip MakeTime_roundtrip MakeDate_def loc_def)
    then show ?thesis
      using ur
      by (simp add: Date_of_fields_def getUTCFullYear_def getUTCMonth_def getUTCDate_def
            getUTCHours_def getUTCMinutes_def getUTCSeconds_def getUTCMilliseconds_def
            UTC_def u_def [symmetric] TimeClip_valid)
  qed
  have i: "input_time env (h @ [Some u]) (Some (DateObject (length h))) = Some u"
    by (simp add: input_time_def new_Date_def deref_alloc_new)
  have yu: "\<not> (0 \<le> YearFromTime u \<and> YearFromTime u \<le> 99)"
    using y' by (simp add: YearFromTime_def du)
  have nv: "normalizeToUTC env (Some (DateObject (length h))) True (h @ [Some u])
              = Some ((Day t + n) * msPerDay + MakeTime 12 0 0 0)"
    using normalized_value_exact [OF i ur _ yu] b(2) by (simp add: du)
  show ?thesis
    using r fields nv
    by (simp add: add_def Let_def alloc_def factory_result u_def [symmetric])
qed

text \<open>
  Where the chain \<open>d.add({day: n}).subtract({day: n})\<close> does come back: the receiver is at
  noon UTC (as the default construction leaves it), the host's offset is always more than
  \<open>-12\<close> and at most \<open>+12\<close> hours, neither the receiver nor the intermediate day lies in the
  years 0 to 99, and the intermediate day is within the range of time values.  The result
  is then a new Date Value holding the receiver's instant.
\<close>

lemma add_then_subtract_same_day:
  assumes a: "get d < length h" and r: "deref h (get d) = Some t"
    and v: "\<bar>t\<bar> \<le> 8640000000000000"
    and noon: "TimeWithinDay t = MakeTime 12 0 0 0"
    and tz: "\<forall>s. - 43200000 < LocalTZA env s \<and> LocalTZA env s \<le> 43200000"
    and y: "\<not> (0 \<le> YearFromTime t \<and> YearFromTime t \<le> 99)"
    and y': "\<not> (0 \<le> YearFromDay (Day t + n) \<and> YearFromDay (Day t + n) \<le> 99)"
    and b: "- 100000000 \<le> Day t + n" "Day t + n < 100000000"
  shows "\<exists>x w h'. add_then_subtract env d n h
                    = Inr (XBDateRef (XBDate (length h + 3)), h @ [x, Some ((Day t + n) * msPerDay + MakeTime 12 0 0 0), w, Some t])
         \<and> is_method (XBDate (length h + 3)) ''='' d (Some UnitDay)
              (h @ [x, Some ((Day t + n) * msPerDay + MakeTime 12 0 0 0), w, Some t])"
proof -
  have n12: "MakeTime 12 0 0 0 = 43200000"
    by (simp add: MakeTime_def msPerHour_def msPerMinute_def msPerSecond_def)
  have te: "t = Day t * msPerDay + MakeTime 12 0 0 0"
    using Day_TimeWithinDay [of t] noon by simp
  have z: "0 \<le> MakeTime 12 0 0 0 - LocalTZA env s"
    "MakeTime 12 0 0 0 - LocalTZA env s < msPerDay" for s
    using tz [rule_format, of s] by (simp_all add: n12 msPerDay_def)
  let ?loc = "(Day t + n) * msPerDay + TimeWithinDay t"
  let ?r1 = "(Day t + n) * msPerDay + MakeTime 12 0 0 0"
  let ?h1 = "h @ [Some (?loc - LocalTZA env ?loc), Some ?r1]"
  have s1: "add env (DateRef (get d)) UnitDay n h = Inr (XBDate (Suc (length h)), ?h1)"
    using z by (intro add_day_step [OF r y _ _ b y']) (simp_all add: noon)
  have m12: "0 \<le> MakeTime 12 0 0 0" "MakeTime 12 0 0 0 < msPerDay"
    by (simp_all add: n12 msPerDay_def)
  have d1: "Day ?r1 = Day t + n" "TimeWithinDay ?r1 = MakeTime 12 0 0 0"
    by (simp_all only: Day_shift Day_of_small [OF m12] add_0_right TimeWithinDay_shift
          TimeWithinDay_of_small [OF m12])
  have r1: "deref ?h1 (Suc (length h)) = Some ?r1" by (simp add: deref_def nth_append)
  have y1: "\<not> (0 \<le> YearFromTime ?r1 \<and> YearFromTime ?r1 \<le> 99)"
    using y' by (simp add: YearFromTime_def d1)
  have bk: "Day ?r1 + - n = Day t" by (simp add: d1)
  have tb: "- 100000000 \<le> Day t" "Day t < 100000000"
  proof -
    show "- 100000000 \<le> Day t" by (rule Day_range(1) [OF v])
    have "t = Day t * 86400000 + 43200000" using te by (simp add: n12 msPerDay_def)
    then show "Day t < 100000000" using v by linarith
  qed
  let ?loc2 = "(Day ?r1 + - n) * msPerDay + TimeWithinDay ?r1"
  have y2: "\<not> (0 \<le> YearFromDay (Day ?r1 + - n) \<and> YearFromDay (Day ?r1 + - n) \<le> 99)"
    unfolding bk using y by (simp add: YearFromTime_def)
  have s2: "add env (DateRef (Suc (length h))) UnitDay (- n) ?h1
      = Inr (XBDate (Suc (length ?h1)),
             ?h1 @ [Some (?loc2 - LocalTZA env ?loc2),
                    Some ((Day ?r1 + - n) * msPerDay + MakeTime 12 0 0 0)])"
    using z tb by (intro add_day_step [OF r1 y1 _ _ _ _ y2]) (simp_all only: d1 bk)
  have fin: "(Day ?r1 + - n) * msPerDay + MakeTime 12 0 0 0 = t" using te by (simp only: bk)
  let ?h2 = "h @ [Some (?loc - LocalTZA env ?loc), Some ?r1, Some (?loc2 - LocalTZA env ?loc2), Some t]"
  have chain: "add_then_subtract env d n h = Inr (XBDateRef (XBDate (length h + 3)), ?h2)"
    using s1 s2 unfolding fin
    by (simp add: add_then_subtract_def add_method_def subtract_method_def)
  define H2 where "H2 = ?h2"
  have g: "deref H2 (length h + 3) = Some t" by (simp add: H2_def deref_def nth_append)
  have g': "deref H2 (get d) = Some t" using a r by (simp add: H2_def deref_def nth_append)
  have "is_method (XBDate (length h + 3)) ''='' d (Some UnitDay) H2"
    by (simp add: is_method_def g g' comparable_value compare_operators)
  then have "is_method (XBDate (length h + 3)) ''='' d (Some UnitDay) ?h2" by (simp only: H2_def)
  with chain show ?thesis by blast
qed

section \<open>What \<open>set\<close> leaves\<close>










section \<open>The copy that \<open>matches\<close> builds\<close>

lemma normalized_value_exact':
  assumes "input_time env h dateArg = Some u" "\<bar>u\<bar> \<le> 8640000000000000"
    and "TimeWithinDay u = MakeTime 12 0 0 0"
    and "\<not> (0 \<le> YearFromTime u \<and> YearFromTime u \<le> 99)"
  shows "normalizeToUTC env dateArg True h = Some u"
proof -
  have n12: "MakeTime 12 0 0 0 = 43200000"
    by (simp add: MakeTime_def msPerHour_def msPerMinute_def msPerSecond_def)
  have e: "Day u * msPerDay + MakeTime 12 0 0 0 = u"
    using Day_TimeWithinDay [of u] assms(3) by simp
  then have "u = Day u * 86400000 + 43200000" by (simp add: n12 msPerDay_def)
  then have "Day u < 100000000" using assms(2) by linarith
  from normalized_value_exact [OF assms(1,2) this assms(4)] e show ?thesis by simp
qed

section \<open>Properties of \<open>date-factory.js\<close>\<close>

subsection \<open>\<open>matches\<close>\<close>

lemma some_iff:
  "fst (some es d h) = (\<exists>k<length es. fst ((es ! k) d (run_all (take k es) d h)))"
proof (induction es arbitrary: h)
  case Nil
  show ?case by simp
next
  case (Cons e es)
  obtain b h' where e: "e d h = (b, h')" by (cases "e d h")
  show ?case
  proof (cases b)
    case True
    then have "fst (((e # es) ! 0) d (run_all (take 0 (e # es)) d h))" using e by simp
    then have "\<exists>k<length (e # es). fst (((e # es) ! k) d (run_all (take k (e # es)) d h))"
      by (intro exI [of _ 0]) simp
    moreover have "fst (some (e # es) d h)" using e True by simp
    ultimately show ?thesis by blast
  next
    case False
    have "fst (some (e # es) d h) = fst (some es d h')" using e False by simp
    also have "\<dots> = (\<exists>k<length es. fst ((es ! k) d (run_all (take k es) d h')))"
      by (rule Cons.IH)
    also have "\<dots> = (\<exists>k<length (e # es). fst (((e # es) ! k) d (run_all (take k (e # es)) d h)))"
    proof
      assume "\<exists>k<length es. fst ((es ! k) d (run_all (take k es) d h'))"
      then obtain k where "k < length es" "fst ((es ! k) d (run_all (take k es) d h'))" by blast
      then have "Suc k < length (e # es)"
        "fst (((e # es) ! Suc k) d (run_all (take (Suc k) (e # es)) d h))" using e by simp_all
      then show "\<exists>k<length (e # es). fst (((e # es) ! k) d (run_all (take k (e # es)) d h))"
        by blast
    next
      assume "\<exists>k<length (e # es). fst (((e # es) ! k) d (run_all (take k (e # es)) d h))"
      then obtain k where k: "k < length (e # es)"
        "fst (((e # es) ! k) d (run_all (take k (e # es)) d h))" by blast
      show "\<exists>k<length es. fst ((es ! k) d (run_all (take k es) d h'))"
      proof (cases k)
        case 0
        with k e False show ?thesis by simp
      next
        case (Suc j)
        with k e have "j < length es" "fst ((es ! j) d (run_all (take j es) d h'))" by simp_all
        then show ?thesis by blast
      qed
    qed
    finally show ?thesis .
  qed
qed

text \<open>
  C2 (amended): \<open>matches\<close> returns false for an empty list of constraints; otherwise it
  returns true iff at least one resolved evaluator returns true for the Date Value that
  \<open>matches\<close> builds from the receiver's instant with the default options, not for the
  receiver itself (the evaluators run in order, the k-th in the store that the evaluators
  before it leave behind).  When the receiver's instant is a valid date at \<open>12:00:00.000\<close>
  UTC outside the years 0 to 99, that Date Value holds the receiver's instant.
\<close>

theorem matches_any_evaluator:
  "fst (matches env getConstraintEvaluator this constraints h) =
     (case XBDateFactory env (Some (DateObject (get this))) None h of
        (date, h') \<Rightarrow>
          constraints \<noteq> [] \<and>
          (\<exists>k<length constraints.
              fst (getConstraintEvaluator (constraints ! k) date
                     (run_all (map getConstraintEvaluator (take k constraints)) date h'))))
   \<and> (\<forall>t. deref h (get this) = Some t \<and> \<bar>t\<bar> \<le> 8640000000000000
            \<and> TimeWithinDay t = MakeTime 12 0 0 0
            \<and> \<not> (0 \<le> YearFromTime t \<and> YearFromTime t \<le> 99)
          \<longrightarrow> (case XBDateFactory env (Some (DateObject (get this))) None h of
                 (date, h') \<Rightarrow> getTime date h' = Some t))"
proof
  show "fst (matches env getConstraintEvaluator this constraints h) =
     (case XBDateFactory env (Some (DateObject (get this))) None h of
        (date, h') \<Rightarrow>
          constraints \<noteq> [] \<and>
          (\<exists>k<length constraints.
              fst (getConstraintEvaluator (constraints ! k) date
                     (run_all (map getConstraintEvaluator (take k constraints)) date h'))))"
  proof (cases "constraints = []")
    case True
    then show ?thesis by (simp add: matches_def isEmpty_def split: prod.splits)
  next
    case False
    obtain date h' where f: "XBDateFactory env (Some (DateObject (get this))) None h = (date, h')"
      by (cases "XBDateFactory env (Some (DateObject (get this))) None h")
    have "fst (matches env getConstraintEvaluator this constraints h) =
            fst (some (map getConstraintEvaluator constraints) date h')"
      using False f by (simp add: matches_def isEmpty_def)
    also have "\<dots> = (\<exists>k<length constraints.
         fst (getConstraintEvaluator (constraints ! k) date
                (run_all (map getConstraintEvaluator (take k constraints)) date h')))"
      by (auto simp: some_iff take_map)
    finally show ?thesis using False f by simp
  qed
  show "\<forall>t. deref h (get this) = Some t \<and> \<bar>t\<bar> \<le> 8640000000000000
            \<and> TimeWithinDay t = MakeTime 12 0 0 0
            \<and> \<not> (0 \<le> YearFromTime t \<and> YearFromTime t \<le> 99)
          \<longrightarrow> (case XBDateFactory env (Some (DateObject (get this))) None h of
                 (date, h') \<Rightarrow> getTime date h' = Some t)"
  proof (intro allI impI)
    fix t
    assume a: "deref h (get this) = Some t \<and> \<bar>t\<bar> \<le> 8640000000000000
            \<and> TimeWithinDay t = MakeTime 12 0 0 0
            \<and> \<not> (0 \<le> YearFromTime t \<and> YearFromTime t \<le> 99)"
    then have i: "input_time env h (Some (DateObject (get this))) = Some t"
      by (simp add: input_time_def new_Date_def)
    have "normalizeToUTC env (Some (DateObject (get this))) True h = Some t"
      using a by (intro normalized_value_exact' [OF i]) simp_all
    then show "case XBDateFactory env (Some (DateObject (get this))) None h of
                 (date, h') \<Rightarrow> getTime date h' = Some t"
      by (simp add: factory_result getTime_def deref_alloc_new)
  qed
qed

theorem matches_any_evaluator_witness:
  "fst (matches utc_host (\<lambda>c date h. (getDate date h = Some c, h)) (XBDate 0) [14, 15]
          [Some 1710504000000])
   \<and> \<not> fst (matches utc_host (\<lambda>c date h. (getDate date h = Some c, h)) (XBDate 0) []
          [Some 1710504000000])
   \<and> deref [Some 1710504000000] (get (XBDate 0)) = Some 1710504000000
   \<and> TimeWithinDay 1710504000000 = MakeTime 12 0 0 0
   \<and> YearFromTime 1710504000000 = 2024
   \<and> XBDateFactory utc_host (Some (DateObject (get (XBDate 0)))) None [Some 1710504000000]
        = (XBDate (Suc 0), [Some 1710504000000, Some 1710504000000])"
proof -
  have 1: "XBDateFactory utc_host (Some (DateObject (get (XBDate 0)))) None [Some 1710504000000]
        = (XBDate (Suc 0), [Some 1710504000000, Some 1710504000000])"
    by code_simp
  have 2: "getDate (XBDate (Suc 0)) [Some 1710504000000, Some 1710504000000] = Some 15"
    by code_simp
  have 3: "deref [Some 1710504000000] (get (XBDate 0)) = Some 1710504000000"
    "TimeWithinDay 1710504000000 = MakeTime 12 0 0 0" "YearFromTime 1710504000000 = 2024"
    by code_simp+
  have "(1::nat) < length [14, 15 :: int] \<and>
        fst ((\<lambda>c date h. (getDate date h = Some c, h)) ([14, 15] ! 1) (XBDate (Suc 0))
               (run_all (map (\<lambda>c date h. (getDate date h = Some c, h)) (take 1 [14, 15]))
                  (XBDate (Suc 0)) [Some 1710504000000, Some 1710504000000]))"
    by (simp add: 2)
  then have "\<exists>k<length [14, 15 :: int].
        fst ((\<lambda>c date h. (getDate date h = Some c, h)) ([14, 15] ! k) (XBDate (Suc 0))
               (run_all (map (\<lambda>c date h. (getDate date h = Some c, h)) (take k [14, 15]))
                  (XBDate (Suc 0)) [Some 1710504000000, Some 1710504000000]))"
    by (rule exI)
  then have "fst (matches utc_host (\<lambda>c date h. (getDate date h = Some c, h)) (XBDate 0) [14, 15]
          [Some 1710504000000])"
    unfolding matches_any_evaluator [of utc_host "\<lambda>c date h. (getDate date h = Some c, h)"
            "XBDate 0" "[14, 15]" "[Some 1710504000000]", THEN conjunct1] 1
    by simp
  moreover have "\<not> fst (matches utc_host (\<lambda>c date h. (getDate date h = Some c, h)) (XBDate 0) []
          [Some 1710504000000])"
    unfolding matches_any_evaluator [of utc_host "\<lambda>c date h. (getDate date h = Some c, h)"
            "XBDate 0" "[]" "[Some 1710504000000]", THEN conjunct1]
    by (simp split: prod.splits)
  ultimately show ?thesis using 1 3 by blast
qed

text \<open>
  C2 as stated fails: the evaluators are not run on the receiver.  A receiver built with
  \<open>normalize\<close> false at 15:04:05.678 UTC satisfies the predicate "the hour is 15", yet
  \<open>matches\<close> with that predicate returns false, because the copy is at noon.
\<close>

theorem matches_not_on_receiver_counterexample:
  "XBDateFactory utc_host (Some (Parsed (Some 1710515045678)))
       (Some \<lparr> normalize = Some False \<rparr>) []
     = (XBDate 0, [Some 1710515045678])
   \<and> getHours (XBDate 0) [Some 1710515045678] = Some 15
   \<and> fst ((\<lambda>c date h. (getHours date h = Some 15, h)) () (XBDate 0) [Some 1710515045678])
   \<and> matches utc_host (\<lambda>c date h. (getHours date h = Some 15, h)) (XBDate 0) [()]
        [Some 1710515045678]
       = (False, [Some 1710515045678, Some 1710504000000])"
  by code_simp

subsection \<open>\<open>is\<close>: the operator\<close>

text \<open>
  C7: for every operator string other than \<open>>=\<close>, \<open>>\<close>, \<open><\<close>, \<open><=\<close> (so for \<open>=\<close> and for
  every unrecognised string), \<open>is\<close> compares the two comparables with strict equality; in
  particular such an operator behaves as \<open>=\<close> does.
\<close>

theorem is_unrecognised_operator:
  assumes "operator \<notin> {''>='', ''>'', ''<'', ''<=''}"
  shows "is_method this operator otherDate precision h =
           strict_equal
             (Number_of_string (getComparableDate (deref h (get this))
                (case precision of None \<Rightarrow> UnitDay | Some p \<Rightarrow> p)))
             (Number_of_string (getComparableDate (deref h (get otherDate))
                (case precision of None \<Rightarrow> UnitDay | Some p \<Rightarrow> p)))
         \<and> is_method this operator otherDate precision h =
           is_method this ''='' otherDate precision h"
proof -
  have op: "getSafeOperator operator = ''===''" using assms by (auto simp: getSafeOperator_def)
  have eq: "getSafeOperator ''='' = ''===''" by (simp add: getSafeOperator_def)
  have c: "compare operator a b = strict_equal a b" for a b
    by (simp add: compare_def strict_equal_def op split: option.splits)
  have c': "compare ''='' a b = strict_equal a b" for a b
    by (simp add: compare_def strict_equal_def eq split: option.splits)
  show ?thesis by (simp add: is_method_def Let_def c c')
qed

theorem is_unrecognised_operator_witness:
  "''bogus'' \<notin> {''>='', ''>'', ''<'', ''<=''}
   \<and> is_method (XBDate 0) ''bogus'' (XBDate (Suc 0)) None [Some 1710504000000, Some 1710540000000]
   \<and> is_method (XBDate 0) ''='' (XBDate (Suc 0)) None [Some 1710504000000, Some 1710540000000]
   \<and> \<not> is_method (XBDate 0) ''bogus'' (XBDate (Suc 0)) None [Some 1710504000000, Some 1710590400000]"
proof -
  have b: "''bogus'' \<notin> {''>='', ''>'', ''<'', ''<=''}" by simp
  have 1: "Number_of_string (getComparableDate (Some 1710504000000) UnitDay) = Some 20240215"
    by code_simp
  have 2: "Number_of_string (getComparableDate (Some 1710540000000) UnitDay) = Some 20240215"
    by code_simp
  have 3: "Number_of_string (getComparableDate (Some 1710590400000) UnitDay) = Some 20240216"
    by code_simp
  show ?thesis
    using is_unrecognised_operator [OF b, of "XBDate 0" "XBDate (Suc 0)" None
            "[Some 1710504000000, Some 1710540000000]"]
          is_unrecognised_operator [OF b, of "XBDate 0" "XBDate (Suc 0)" None
            "[Some 1710504000000, Some 1710590400000]"]
    by (auto simp add: deref_def strict_equal_def 1 2 3)
qed

subsection \<open>\<open>add\<close> and \<open>subtract\<close>\<close>

text \<open>
  C5: with two or more units the fold does not apply them in sequence.  The first step
  returns a Date Value, the second step hands it to the helper \<open>add\<close>, which calls a \<open>Date\<close>
  getter on it: \<open>add\<close> and \<open>subtract\<close> throw a \<open>TypeError\<close>.
\<close>

theorem add_two_units_throws:
  "add_method env this (Some ((k1, v1) # (k2, v2) # rest)) h = Inl TypeError
   \<and> subtract_method env this (Some ((k1, v1) # (k2, v2) # rest)) h = Inl TypeError"
  by (simp add: add_method_def subtract_method_def add_def Let_def split: prod.splits)

text \<open>
  C9: with no unit (an empty or an absent mapping) \<open>add\<close> and \<open>subtract\<close> return the initial
  value of the fold, the receiver's own \<open>Date\<close> object: not a Date Value, and not new.
\<close>

theorem add_no_units_returns_raw_date:
  "add_method env this None h = Inr (DateRef (get this), h)
   \<and> add_method env this (Some []) h = Inr (DateRef (get this), h)
   \<and> subtract_method env this None h = Inr (DateRef (get this), h)
   \<and> subtract_method env this (Some []) h = Inr (DateRef (get this), h)"
  by (simp add: add_method_def subtract_method_def)

subsection \<open>Construction\<close>

text \<open>
  C8: when the input does not parse (\<open>new Date(dateArg)\<close> is the Invalid Date), construction
  still returns a Date Value; its instant is the Invalid Date and each of \<open>getYear\<close>,
  \<open>getMonth\<close>, \<open>getDate\<close>, \<open>getTime\<close>, \<open>getWeekday\<close>, \<open>getHours\<close>, \<open>getMinutes\<close>, \<open>getSeconds\<close>
  returns \<open>NaN\<close>.
\<close>

theorem invalid_input_propagates:
  assumes "new_Date h dateArg = None"
  shows "case XBDateFactory env (Some dateArg) optionsArg h of
           (x, h') \<Rightarrow>
             deref h' (get x) = None
             \<and> getYear x h' = None \<and> getMonth x h' = None \<and> getDate x h' = None
             \<and> getTime x h' = None \<and> getWeekday x h' = None \<and> getHours x h' = None
             \<and> getMinutes x h' = None \<and> getSeconds x h' = None"
  using assms
  by (simp add: XBDateFactory_def normalizeToUTC_def alloc_def deref_def Let_def
        getUTCFullYear_def Date_UTC_def Date_of_number_def
        getYear_def getMonth_def getDate_def getTime_def getWeekday_def getHours_def
        getMinutes_def getSeconds_def getUTCMonth_def getUTCDate_def getUTCDay_def
        getUTCHours_def getUTCMinutes_def getUTCSeconds_def)

theorem invalid_input_propagates_witness:
  "new_Date [] (Parsed None) = None
   \<and> (case XBDateFactory utc_host (Some (Parsed None)) None [] of
           (x, h') \<Rightarrow>
             deref h' (get x) = None
             \<and> getYear x h' = None \<and> getMonth x h' = None \<and> getDate x h' = None
             \<and> getTime x h' = None \<and> getWeekday x h' = None \<and> getHours x h' = None
             \<and> getMinutes x h' = None \<and> getSeconds x h' = None)"
proof -
  have a: "new_Date [] (Parsed None) = None" by (simp add: new_Date_def Date_of_number_def)
  show ?thesis using a invalid_input_propagates [OF a, of utc_host None] by simp
qed

text \<open>
  C1 (amended): for every valid input other than the last instant of the time-value range
  (\<open>8.64e15\<close> ms, \<open>+275760-09-13T00:00:00.000Z\<close>), construction with \<open>normalize\<close> true (the
  default) yields UTC time-of-day \<open>12:00:00.000\<close>; for every valid input, construction with
  \<open>normalize\<close> false preserves the input's UTC hour, minute, second and millisecond.
\<close>

theorem construction_time_of_day:
  assumes "input_time env h dateArg = Some t" and "\<bar>t\<bar> \<le> 8640000000000000"
  shows "case XBDateFactory env dateArg optionsArg h of
           (x, h') \<Rightarrow>
             (optionsArg \<noteq> Some \<lparr> normalize = Some False \<rparr> \<and> t \<noteq> 8640000000000000 \<longrightarrow>
                getHours x h' = Some 12 \<and> getMinutes x h' = Some 0 \<and>
                getSeconds x h' = Some 0 \<and> getUTCMilliseconds (getTime x h') = Some 0)
             \<and> (optionsArg = Some \<lparr> normalize = Some False \<rparr> \<longrightarrow>
                getHours x h' = Some (HourFromTime t) \<and>
                getMinutes x h' = Some (MinFromTime t) \<and>
                getSeconds x h' = Some (SecFromTime t) \<and>
                getUTCMilliseconds (getTime x h') = Some (msFromTime t))"
proof -
  note a = normalized_time_of_day [OF assms]
  have b: "getHours (XBDate (length h)) (h @ [normalizeToUTC env dateArg False h])
          = Some (HourFromTime t)
      \<and> getMinutes (XBDate (length h)) (h @ [normalizeToUTC env dateArg False h])
          = Some (MinFromTime t)
      \<and> getSeconds (XBDate (length h)) (h @ [normalizeToUTC env dateArg False h])
          = Some (SecFromTime t)
      \<and> getUTCMilliseconds (getTime (XBDate (length h)) (h @ [normalizeToUTC env dateArg False h]))
          = Some (msFromTime t)"
  proof -
    obtain D where "normalizeToUTC env dateArg False h = Some (D * msPerDay + TimeWithinDay t)"
      using preserved_value [OF assms] by blast
    then show ?thesis
      by (simp add: getHours_def getMinutes_def getSeconds_def getTime_def deref_alloc_new
            getUTCHours_def getUTCMinutes_def getUTCSeconds_def getUTCMilliseconds_def
            fields_of_TimeWithinDay)
  qed
  show ?thesis using a b by (simp add: factory_result)
qed

theorem construction_time_of_day_witness:
  "input_time utc_host [] (Some (Parsed (Some 1710515045678))) = Some 1710515045678
   \<and> \<bar>1710515045678\<bar> \<le> (8640000000000000 :: int)
   \<and> (case XBDateFactory utc_host (Some (Parsed (Some 1710515045678))) None [] of
         (x, h') \<Rightarrow>
            getHours x h' = Some 12 \<and> getMinutes x h' = Some 0 \<and>
            getSeconds x h' = Some 0 \<and> getUTCMilliseconds (getTime x h') = Some 0)
   \<and> (case XBDateFactory utc_host (Some (Parsed (Some 1710515045678)))
               (Some \<lparr> normalize = Some False \<rparr>) [] of
         (x, h') \<Rightarrow>
            getHours x h' = Some 15 \<and> getMinutes x h' = Some 4 \<and>
            getSeconds x h' = Some 5 \<and> getUTCMilliseconds (getTime x h') = Some 678)"
proof -
  have i: "input_time utc_host [] (Some (Parsed (Some 1710515045678))) = Some 1710515045678"
    by (simp add: input_time_def new_Date_def Date_of_number_def TimeClip_def)
  have b: "\<bar>1710515045678\<bar> \<le> (8640000000000000 :: int)" by simp
  have f: "HourFromTime 1710515045678 = 15" "MinFromTime 1710515045678 = 4"
    "SecFromTime 1710515045678 = 5" "msFromTime 1710515045678 = 678"
    by (simp_all add: HourFromTime_def MinFromTime_def SecFromTime_def msFromTime_def
          msPerHour_def msPerMinute_def msPerSecond_def)
  show ?thesis
    using i b construction_time_of_day [OF i b, of None]
      construction_time_of_day [OF i b, of "Some \<lparr> normalize = Some False \<rparr>"]
    by (auto simp: f split: prod.splits)
qed

text \<open>
  C1 as stated fails at the last instant of the range: noon of that day is beyond the
  range, \<open>new Date\<close> clips it to the Invalid Date, and the hour is \<open>NaN\<close>.
\<close>

theorem construction_last_instant_counterexample:
  "input_time utc_host [] (Some (Parsed (Some 8640000000000000))) = Some 8640000000000000
   \<and> valid_time (Some 8640000000000000)
   \<and> getTime (fst (XBDateFactory utc_host (Some (Parsed (Some 8640000000000000))) None []))
              (snd (XBDateFactory utc_host (Some (Parsed (Some 8640000000000000))) None []))
       = None
   \<and> getHours (fst (XBDateFactory utc_host (Some (Parsed (Some 8640000000000000))) None []))
               (snd (XBDateFactory utc_host (Some (Parsed (Some 8640000000000000))) None []))
       \<noteq> Some 12"
  by code_simp

subsection \<open>\<open>matches\<close> works on a copy\<close>

text \<open>
  C10 (amended): for every Date Value, \<open>matches\<close> hands the evaluators not the receiver
  but one fresh Date Value, built from the receiver's instant with the default options;
  neither \<open>set\<close> on it nor any other write to its \<open>Date\<close> object, in any store, changes the
  receiver's instant.  When the receiver's instant is a valid date other than the last
  instant of the time-value range, that value has time-of-day \<open>12:00:00.000\<close> UTC when it
  is handed over, whatever the receiver's time of day is, and the k-th evaluator observes
  that time of day whenever the evaluators before it have left the value's instant as it
  was.
\<close>

theorem matches_passes_normalized_copy:
  assumes "get this < length h" and "constraints \<noteq> []"
  shows "case XBDateFactory env (Some (DateObject (get this))) None h of
           (date, h') \<Rightarrow>
             matches env getConstraintEvaluator this constraints h
               = some (map getConstraintEvaluator constraints) date h'
             \<and> get date = length h \<and> date \<noteq> this
             \<and> deref h' (get this) = deref h (get this)
             \<and> (\<forall>H vals. deref (snd (set_method date vals H)) (get this) = deref H (get this))
             \<and> (\<forall>H v. deref (H[get date := v]) (get this) = deref H (get this))
             \<and> (\<forall>t. deref h (get this) = Some t \<and> \<bar>t\<bar> \<le> 8640000000000000
                      \<and> t \<noteq> 8640000000000000
                  \<longrightarrow> getHours date h' = Some 12 \<and> getMinutes date h' = Some 0
                      \<and> getSeconds date h' = Some 0
                      \<and> getUTCMilliseconds (getTime date h') = Some 0
                      \<and> (\<forall>k<length constraints.
                            getTime date
                              (run_all (map getConstraintEvaluator (take k constraints)) date h')
                              = getTime date h'
                            \<longrightarrow> getHours date
                                  (run_all (map getConstraintEvaluator (take k constraints))
                                     date h') = Some 12
                                \<and> getMinutes date
                                  (run_all (map getConstraintEvaluator (take k constraints))
                                     date h') = Some 0
                                \<and> getSeconds date
                                  (run_all (map getConstraintEvaluator (take k constraints))
                                     date h') = Some 0
                                \<and> getUTCMilliseconds (getTime date
                                  (run_all (map getConstraintEvaluator (take k constraints))
                                     date h')) = Some 0))"
proof -
  let ?arg = "Some (DateObject (get this))"
  let ?v = "normalizeToUTC env ?arg True h"
  let ?d = "XBDate (length h)"
  let ?h' = "h @ [?v]"
  have f: "XBDateFactory env ?arg None h = (?d, ?h')" by (simp add: factory_result)
  have m: "matches env getConstraintEvaluator this constraints h
             = some (map getConstraintEvaluator constraints) ?d ?h'"
    using assms(2) by (simp add: matches_def isEmpty_def f)
  have ne: "?d \<noteq> this" using assms(1) by (cases this) auto
  have old: "deref ?h' (get this) = deref h (get this)"
    using assms(1) by (simp add: deref_alloc_old)
  have upd: "deref (H[length h := v]) (get this) = deref H (get this)" for H v
    using assms(1) by (simp add: deref_def)
  have st: "deref (snd (set_method ?d vals H)) (get this) = deref H (get this)" for vals H
    using upd by (simp add: set_method_def Let_def)
  have tod: "getHours ?d ?h' = Some 12 \<and> getMinutes ?d ?h' = Some 0
      \<and> getSeconds ?d ?h' = Some 0 \<and> getUTCMilliseconds (getTime ?d ?h') = Some 0"
    if "deref h (get this) = Some t \<and> \<bar>t\<bar> \<le> 8640000000000000 \<and> t \<noteq> 8640000000000000"
    for t
  proof -
    have i: "input_time env h ?arg = Some t" using that by (simp add: input_time_def new_Date_def)
    show ?thesis using that by (intro normalized_time_of_day [OF i]) simp_all
  qed
  have later: "getHours ?d H = Some 12 \<and> getMinutes ?d H = Some 0
      \<and> getSeconds ?d H = Some 0 \<and> getUTCMilliseconds (getTime ?d H) = Some 0"
    if "deref h (get this) = Some t \<and> \<bar>t\<bar> \<le> 8640000000000000 \<and> t \<noteq> 8640000000000000"
      and "getTime ?d H = getTime ?d ?h'" for t H
    using tod [OF that(1)] that(2)
    by (simp add: getHours_def getMinutes_def getSeconds_def getTime_def)
  show ?thesis
    unfolding f prod.case using m ne old upd st tod later by (simp del: append.simps) blast
qed

theorem matches_passes_normalized_copy_witness:
  "get (XBDate 0) < length [Some (1710515045678 :: int)]
   \<and> [()] \<noteq> []
   \<and> deref [Some 1710515045678] (get (XBDate 0)) = Some 1710515045678
   \<and> \<bar>1710515045678\<bar> \<le> (8640000000000000 :: int)
   \<and> (1710515045678 :: int) \<noteq> 8640000000000000
   \<and> getHours (XBDate 0) [Some 1710515045678] = Some 15
   \<and> matches utc_host (\<lambda>c date h. (getHours date h = Some 12, h)) (XBDate 0) [()]
        [Some 1710515045678]
       = (True, [Some 1710515045678, Some 1710504000000])"
proof -
  have 1: "get (XBDate 0) < length [Some (1710515045678 :: int)]" by simp
  have 2: "[()] \<noteq> []" by simp
  have 3: "deref [Some 1710515045678] (get (XBDate 0)) = Some 1710515045678"
    by (simp add: deref_def)
  have 4: "\<bar>1710515045678\<bar> \<le> (8640000000000000 :: int)" by simp
  have 5: "(1710515045678 :: int) \<noteq> 8640000000000000" by simp
  have 6: "getHours (XBDate 0) [Some 1710515045678] = Some 15" by code_simp
  have f: "XBDateFactory utc_host (Some (DateObject (get (XBDate 0)))) None [Some 1710515045678]
      = (XBDate (Suc 0), [Some 1710515045678, Some 1710504000000])"
    by code_simp
  note T = matches_passes_normalized_copy [OF 1 2, of utc_host
        "\<lambda>c date h. (getHours date h = Some 12, h)", unfolded f prod.case]
  from T have m: "matches utc_host (\<lambda>c date h. (getHours date h = Some 12, h)) (XBDate 0) [()]
        [Some 1710515045678]
      = some (map (\<lambda>c date h. (getHours date h = Some 12, h)) [()]) (XBDate (Suc 0))
          [Some 1710515045678, Some 1710504000000]" by blast
  from T 3 4 5 have "getHours (XBDate (Suc 0)) [Some 1710515045678, Some 1710504000000] = Some 12"
    by blast
  with m have "matches utc_host (\<lambda>c date h. (getHours date h = Some 12, h)) (XBDate 0) [()]
        [Some 1710515045678]
       = (True, [Some 1710515045678, Some 1710504000000])" by simp
  with 1 2 3 4 5 6 show ?thesis by blast
qed

text \<open>
  C10 as stated fails in two ways.  For a receiver built with \<open>normalize\<close> false at the
  last instant of the range, the copy is the Invalid Date, and the evaluators observe the
  hour \<open>NaN\<close>.  And all evaluators share the one copy: after a first predicate has called
  \<open>set({year: 300000})\<close> on it, which makes it the Invalid Date, the second predicate
  observes the hour \<open>NaN\<close>, for an ordinary receiver.
\<close>

theorem matches_copy_not_at_noon_counterexample:
  "XBDateFactory utc_host (Some (Parsed (Some 8640000000000000)))
       (Some \<lparr> normalize = Some False \<rparr>) []
     = (XBDate 0, [Some 8640000000000000])
   \<and> getHours (XBDate 0) [Some 8640000000000000] = Some 0
   \<and> matches utc_host (\<lambda>c date h. (getHours date h = Some 12, h)) (XBDate 0) [()]
        [Some 8640000000000000]
       = (False, [Some 8640000000000000, None])
   \<and> matches utc_host (\<lambda>c date h. (getHours date h = None, h)) (XBDate 0) [()]
        [Some 8640000000000000]
       = (True, [Some 8640000000000000, None])
   \<and> XBDateFactory utc_host (Some (Parsed (Some 1710460800000))) None []
     = (XBDate 0, [Some 1710504000000])
   \<and> matches utc_host
        (\<lambda>c. if c
              then (\<lambda>date h.
                      (False,
                       snd (set_method date
                              (Some \<lparr> year = Some 300000, month = None, day = None \<rparr>) h)))
              else (\<lambda>date h. (getHours date h = Some 12, h)))
        (XBDate 0) [True, False] [Some 1710504000000]
       = (False, [Some 1710504000000, None])
   \<and> matches utc_host
        (\<lambda>c. if c
              then (\<lambda>date h.
                      (False,
                       snd (set_method date
                              (Some \<lparr> year = Some 300000, month = None, day = None \<rparr>) h)))
              else (\<lambda>date h. (getHours date h = None, h)))
        (XBDate 0) [True, False] [Some 1710504000000]
       = (True, [Some 1710504000000, None])"
proof -
  have a: "XBDateFactory utc_host (Some (Parsed (Some 8640000000000000)))
       (Some \<lparr> normalize = Some False \<rparr>) []
     = (XBDate 0, [Some 8640000000000000])"
    "getHours (XBDate 0) [Some 8640000000000000] = Some 0"
    "matches utc_host (\<lambda>c date h. (getHours date h = Some 12, h)) (XBDate 0) [()]
        [Some 8640000000000000]
       = (False, [Some 8640000000000000, None])"
    "matches utc_host (\<lambda>c date h. (getHours date h = None, h)) (XBDate 0) [()]
        [Some 8640000000000000]
       = (True, [Some 8640000000000000, None])"
    "XBDateFactory utc_host (Some (Parsed (Some 1710460800000))) None []
     = (XBDate 0, [Some 1710504000000])"
    by code_simp+
  have f: "XBDateFactory utc_host (Some (DateObject 0)) None [Some 1710504000000]
      = (XBDate (Suc 0), [Some 1710504000000, Some 1710504000000])"
    by code_simp
  have s: "set_method (XBDate (Suc 0))
             (Some \<lparr> year = Some 300000, month = None, day = None \<rparr>)
             [Some 1710504000000, Some 1710504000000]
      = (XBDate (Suc 0), [Some 1710504000000, None])"
    by code_simp
  have g: "getHours (XBDate (Suc 0)) [Some 1710504000000, None] = None"
    by code_simp
  have b: "matches utc_host
        (\<lambda>c. if c
              then (\<lambda>date h.
                      (False,
                       snd (set_method date
                              (Some \<lparr> year = Some 300000, month = None, day = None \<rparr>) h)))
              else (\<lambda>date h. (getHours date h = Some 12, h)))
        (XBDate 0) [True, False] [Some 1710504000000]
       = (False, [Some 1710504000000, None])"
    "matches utc_host
        (\<lambda>c. if c
              then (\<lambda>date h.
                      (False,
                       snd (set_method date
                              (Some \<lparr> year = Some 300000, month = None, day = None \<rparr>) h)))
              else (\<lambda>date h. (getHours date h = None, h)))
        (XBDate 0) [True, False] [Some 1710504000000]
       = (True, [Some 1710504000000, None])"
    by (simp_all add: matches_def isEmpty_def f s g)
  show ?thesis using a b by simp
qed

subsection \<open>\<open>set\<close>\<close>



subsection \<open>\<open>is\<close>: the comparable\<close>

text \<open>
  C3: the comparable is not monotonic with calendar order for years before year 0.  The
  year is not padded, so the text of a negative year carries a minus sign that negates the
  whole number: within such a year a later month or day has a smaller comparable.  The
  two Date Values below are 1 January and 1 February of year \<open>-1\<close>
  (\<open>-000001-01-01\<close>, \<open>-000001-02-01\<close>); \<open>is\<close> answers that January is not before February, at
  day and at month precision.
\<close>

theorem is_misorders_negative_years:
  "XBDateFactory utc_host (Some (Parsed (Some (- 62198755200000)))) None []
     = (XBDate 0, [Some (- 62198712000000)])
   \<and> XBDateFactory utc_host (Some (Parsed (Some (- 62196076800000)))) None
        [Some (- 62198712000000)]
     = (XBDate 1, [Some (- 62198712000000), Some (- 62196033600000)])
   \<and> getYear (XBDate 0) [Some (- 62198712000000), Some (- 62196033600000)] = Some (- 1)
   \<and> getMonth (XBDate 0) [Some (- 62198712000000), Some (- 62196033600000)] = Some 0
   \<and> getDate (XBDate 0) [Some (- 62198712000000), Some (- 62196033600000)] = Some 1
   \<and> getYear (XBDate 1) [Some (- 62198712000000), Some (- 62196033600000)] = Some (- 1)
   \<and> getMonth (XBDate 1) [Some (- 62198712000000), Some (- 62196033600000)] = Some 1
   \<and> getDate (XBDate 1) [Some (- 62198712000000), Some (- 62196033600000)] = Some 1
   \<and> Number_of_string (getComparableDate (Some (- 62198712000000)) UnitDay) = Some (- 10001)
   \<and> Number_of_string (getComparableDate (Some (- 62196033600000)) UnitDay) = Some (- 10101)
   \<and> \<not> is_method (XBDate 0) ''<'' (XBDate 1) None
          [Some (- 62198712000000), Some (- 62196033600000)]
   \<and> is_method (XBDate 0) ''>'' (XBDate 1) None
          [Some (- 62198712000000), Some (- 62196033600000)]
   \<and> \<not> is_method (XBDate 0) ''<='' (XBDate 1) (Some UnitMonth)
          [Some (- 62198712000000), Some (- 62196033600000)]
   \<and> is_method (XBDate 0) ''>='' (XBDate 1) (Some UnitMonth)
          [Some (- 62198712000000), Some (- 62196033600000)]"
  by code_simp

subsection \<open>\<open>add\<close> then \<open>subtract\<close> of the same number of days\<close>

text \<open>
  C4: \<open>add({day: n})\<close> followed by \<open>subtract({day: n})\<close> does not always come back to the same
  day.  The helper \<open>add\<close> reads the UTC fields and hands them to the \<open>Date\<close> constructor
  that takes them as local time.  On a host 13 hours ahead of UTC, local noon of the next
  day is still the same UTC day: from 2024-03-15 adding one day gives 2024-03-15 and
  subtracting one gives 2024-03-13.  On a host one hour ahead of UTC the same happens to a
  receiver built with \<open>normalize\<close> false at 00:30 UTC: the result is 2024-03-14.  On any
  host, the years 0 to 99 are moved to 1900 to 1999 by the constructors: from 0100-01-01,
  adding \<open>-1\<close> day and subtracting it again gives 2000-01-01.
\<close>

theorem add_subtract_day_drifts:
  "XBDateFactory (offset_host 46800000) (Some (Parsed (Some 1710460800000))) None []
     = (XBDate 0, [Some 1710504000000])
   \<and> add_method (offset_host 46800000) (XBDate 0) (Some [(UnitDay, 1)]) [Some 1710504000000]
     = Inr (XBDateRef (XBDate 2), [Some 1710504000000, Some 1710543600000, Some 1710504000000])
   \<and> add_then_subtract (offset_host 46800000) (XBDate 0) 1 [Some 1710504000000]
     = Inr (XBDateRef (XBDate 4),
            [Some 1710504000000, Some 1710543600000, Some 1710504000000,
             Some 1710370800000, Some 1710331200000])
   \<and> getDate (XBDate 0) [Some 1710504000000] = Some 15
   \<and> getDate (XBDate 4)
        [Some 1710504000000, Some 1710543600000, Some 1710504000000,
         Some 1710370800000, Some 1710331200000] = Some 13
   \<and> \<not> is_method (XBDate 4) ''='' (XBDate 0) (Some UnitDay)
        [Some 1710504000000, Some 1710543600000, Some 1710504000000,
         Some 1710370800000, Some 1710331200000]
   \<and> XBDateFactory (offset_host 3600000) (Some (Parsed (Some 1710462600000)))
        (Some \<lparr> normalize = Some False \<rparr>) []
     = (XBDate 0, [Some 1710462600000])
   \<and> add_then_subtract (offset_host 3600000) (XBDate 0) 1 [Some 1710462600000]
     = Inr (XBDateRef (XBDate 4),
            [Some 1710462600000, Some 1710545400000, Some 1710504000000,
             Some 1710414000000, Some 1710417600000])
   \<and> \<not> is_method (XBDate 4) ''='' (XBDate 0) (Some UnitDay)
        [Some 1710462600000, Some 1710545400000, Some 1710504000000,
         Some 1710414000000, Some 1710417600000]
   \<and> XBDateFactory utc_host (Some (Parsed (Some (- 59011459200000)))) None []
     = (XBDate 0, [Some (- 59011416000000)])
   \<and> getYear (XBDate 0) [Some (- 59011416000000)] = Some 100
   \<and> add_then_subtract utc_host (XBDate 0) (- 1) [Some (- 59011416000000)]
     = Inr (XBDateRef (XBDate 4),
            [Some (- 59011416000000), Some (- 59011502400000), Some 946641600000,
             Some 946728000000, Some 946728000000])
   \<and> getYear (XBDate 4)
        [Some (- 59011416000000), Some (- 59011502400000), Some 946641600000,
         Some 946728000000, Some 946728000000] = Some 2000
   \<and> \<not> is_method (XBDate 4) ''='' (XBDate 0) (Some UnitDay)
        [Some (- 59011416000000), Some (- 59011502400000), Some 946641600000,
         Some 946728000000, Some 946728000000]"
  by code_simp

end
